theory Spec2Isabelle
  imports Complex_Main "HOL-Library.Word" "HOL-Library.AList"
begin

section \<open>Values of the host language\<close>

text \<open>
  A JavaScript string is a sequence of UTF-16 code units; the regular expression of
  \<open>toAscii\<close> works on code units, so the model keeps them as 16-bit words. A source
  literal \<open>'abc'\<close> is written \<open>lit ''abc''\<close>.
\<close>

type_synonym jsstring = "16 word list"

definition lit :: "string \<Rightarrow> jsstring" where
  "lit s = map of_char s"

text \<open>
  Template literals print an array index in decimal: \<open>show_nat\<close> is \<open>String(n)\<close> for a
  natural number \<open>n\<close> (array indices are far below the range where JavaScript switches to
  exponent notation).
\<close>

definition digit_unit :: "nat \<Rightarrow> 16 word" where
  "digit_unit d = of_nat (48 + d)"

fun show_nat :: "nat \<Rightarrow> jsstring" where
  "show_nat n = (if n < 10 then [digit_unit n] else show_nat (n div 10) @ [digit_unit (n mod 10)])"

declare show_nat.simps [simp del]

text \<open>
  A thrown value is an \<open>Error\<close> object: the handlers of the source read its \<open>name\<close> and its
  \<open>message\<close>, nothing else.
\<close>

datatype js_error = JsError (err_name: jsstring) (err_message: jsstring)

definition Error_of :: "jsstring \<Rightarrow> js_error" where
  \<comment> \<open>\<open>new Error(msg)\<close>\<close>
  "Error_of msg = JsError (lit ''Error'') msg"

definition TypeError_of :: "jsstring \<Rightarrow> js_error" where
  \<comment> \<open>the engine's error for reading a property of \<open>undefined\<close>\<close>
  "TypeError_of prop =
     JsError (lit ''TypeError'')
       (lit ''Cannot read properties of undefined (reading '' @ [39] @ prop @ [39] @ lit '')'')"

text \<open>
  Metadata values are JSON-like values. Numbers are kept as integers: the functions below
  never compute with them, they test them for truthiness and print them.
\<close>

datatype json =
    JUndefined
  | JNull
  | JBool bool
  | JNum int
  | JStr jsstring
  | JArr "json list"
  | JObj "(jsstring \<times> json) list"

type_synonym js_object = "(jsstring \<times> json) list"

type_synonym vector = "real list"

record embedding =
  eid :: jsstring
  evalues :: vector
  emetadata :: "js_object option"

section \<open>The retrieval route (src/app/api/knowledgebase/route.ts)\<close>

record event =
  status :: jsstring
  message :: jsstring

definition update_data :: "string \<Rightarrow> jsstring \<Rightarrow> event" where
  \<comment> \<open>the \<open>data\<close> that \<open>sendUpdate(status, message, controller)\<close> builds\<close>
  "update_data st msg = \<lparr>status = lit st, message = msg\<rparr>"

text \<open>
  The response stream behind the controller: the events enqueued so far, and \<open>room\<close>, the
  number of events it still takes before the consumer cancels it (\<open>None\<close>: it stays
  open). \<open>controller.enqueue\<close> on a stream that is no longer open throws a TypeError, and
  so does \<open>sendUpdate\<close>, which calls it.
\<close>

record stream =
  written :: "event list"
  room :: "nat option"

definition fresh_stream :: "nat option \<Rightarrow> stream" where
  "fresh_stream r = \<lparr>written = [], room = r\<rparr>"

definition stream_closed :: js_error where
  "stream_closed =
     JsError (lit ''TypeError'') (lit ''Invalid state: Controller is already closed'')"

definition enqueue :: "stream \<Rightarrow> event \<Rightarrow> js_error + stream" where
  "enqueue s ev =
     (if room s = Some 0 then Inl stream_closed
      else Inr \<lparr>written = written s @ [ev], room = map_option (\<lambda>n. n - 1) (room s)\<rparr>)"

definition sendUpdate :: "stream \<Rightarrow> string \<Rightarrow> jsstring \<Rightarrow> js_error + stream" where
  "sendUpdate s st msg = enqueue s (update_data st msg)"

definition accepts :: "nat option \<Rightarrow> nat \<Rightarrow> bool" where
  \<comment> \<open>the stream takes \<open>n\<close> more events\<close>
  "accepts r n = (case r of None \<Rightarrow> True | Some k \<Rightarrow> n \<le> k)"

type_synonym passage = jsstring

record query_result =
  qr_context :: "passage list"

record knowledgebase_settings =
  vectorDbTopK :: nat
  cohereTopN :: nat

record forge_settings =
  vectorizationProvider :: jsstring

record settings =
  forge :: "forge_settings option"
  knowledgebase :: "knowledgebase_settings option"

record vector_db_provider =
  query_of :: "jsstring \<Rightarrow> embedding \<Rightarrow> nat \<Rightarrow> js_error + query_result"

text \<open>
  The collaborators the route awaits: \<open>embedMessage\<close> (modelled further down and passed in
  here), the provider factory and the reranker (neither is among the sources). Each
  returns \<open>Inl\<close> of the thrown error or \<open>Inr\<close> of its value.
\<close>

record collaborators =
  c_embedMessage :: "jsstring \<Rightarrow> jsstring \<Rightarrow> js_error + embedding"
  c_getVectorDbProvider :: "jsstring \<Rightarrow> js_error + vector_db_provider"
  c_rerank :: "jsstring \<Rightarrow> passage list \<Rightarrow> knowledgebase_settings \<Rightarrow> js_error + jsstring"

text \<open>
  Lines 89 to 96, the querying stage: the provider is resolved from
  \<open>settings.forge.vectorizationProvider\<close> and queried with
  \<open>settings.knowledgebase.vectorDbTopK\<close>. Reading a property of an absent settings group
  throws a TypeError. The stage hands on the query result and the knowledgebase settings,
  which the reranker receives.
\<close>

definition query_stage ::
  "collaborators \<Rightarrow> jsstring \<Rightarrow> embedding \<Rightarrow> settings \<Rightarrow>
     js_error + (query_result \<times> knowledgebase_settings)" where
  "query_stage c userId embeddingResults st =
    (case forge st of
       None \<Rightarrow> Inl (TypeError_of (lit ''vectorizationProvider''))
     | Some fg \<Rightarrow>
        (case c_getVectorDbProvider c (vectorizationProvider fg) of
           Inl e \<Rightarrow> Inl e
         | Inr vectorDbProvider \<Rightarrow>
            (case knowledgebase st of
               None \<Rightarrow> Inl (TypeError_of (lit ''vectorDbTopK''))
             | Some kb \<Rightarrow>
                (case query_of vectorDbProvider userId embeddingResults (vectorDbTopK kb) of
                   Inl e \<Rightarrow> Inl e
                 | Inr queryResults \<Rightarrow> Inr (queryResults, kb)))))"

text \<open>
  The \<open>try\<close> block of \<open>retrieveContext\<close>: the stream when the block ends, and how it
  ends (\<open>Inl\<close>: an exception reached the \<open>catch\<close> clause, thrown by a stage or by
  \<open>sendUpdate\<close>; \<open>Inr\<close>: the value of \<open>rerankingContext\<close>). The logger calls are left
  out.
\<close>

definition retrieveContext_try ::
  "collaborators \<Rightarrow> jsstring \<Rightarrow> jsstring \<Rightarrow> settings \<Rightarrow> stream \<Rightarrow>
     stream \<times> (js_error + jsstring)" where
  "retrieveContext_try c userId msg st s0 =
    (case sendUpdate s0 ''Retrieving context'' msg of
       Inl e \<Rightarrow> (s0, Inl e)
     | Inr s1 \<Rightarrow>
    (case c_embedMessage c userId msg of
       Inl e \<Rightarrow> (s1, Inl e)
     | Inr embeddingResults \<Rightarrow>
    (case sendUpdate s1 ''Embedding complete''
            (lit ''Message embedding complete for: '' @ msg) of
       Inl e \<Rightarrow> (s1, Inl e)
     | Inr s2 \<Rightarrow>
    (case query_stage c userId embeddingResults st of
       Inl e \<Rightarrow> (s2, Inl e)
     | Inr (queryResults, kb) \<Rightarrow>
    (case sendUpdate s2 ''Query complete'' (lit ''Query results retrieved from Pinecone.'') of
       Inl e \<Rightarrow> (s2, Inl e)
     | Inr s3 \<Rightarrow>
        if length (qr_context queryResults) > 0 then
          (case c_rerank c msg (qr_context queryResults) kb of
             Inl e \<Rightarrow> (s3, Inl e)
           | Inr rerankingContext \<Rightarrow>
              (case sendUpdate s3 ''Reranking complete'' rerankingContext of
                 Inl e \<Rightarrow> (s3, Inl e)
               | Inr s4 \<Rightarrow> (s4, Inr rerankingContext)))
        else
          (case sendUpdate s3 ''No context'' (lit ''No context found for the message.'') of
             Inl e \<Rightarrow> (s3, Inl e)
           | Inr s4 \<Rightarrow> (s4, Inr [])))))))"

text \<open>
  The \<open>catch\<close> clause sends the Error event and rethrows nothing of its own; when its
  \<open>sendUpdate\<close> throws, that exception leaves the clause. The \<open>finally\<close> clause sends
  Done; when its \<open>sendUpdate\<close> throws, that exception replaces the completion so far. The
  second component of \<open>retrieveContext\<close> is how the returned promise settles: \<open>Inr ()\<close>
  resolved, \<open>Inl e\<close> rejected with \<open>e\<close> (the caller's \<open>.catch\<close> receives it).
\<close>

definition retrieveContext_catch :: "stream \<Rightarrow> js_error \<Rightarrow> stream \<times> (js_error + unit)" where
  "retrieveContext_catch s error =
     (case sendUpdate s ''Error'' (lit ''Error retrieving context: '' @ err_message error) of
        Inl e \<Rightarrow> (s, Inl e)
      | Inr s' \<Rightarrow> (s', Inr ()))"

definition retrieveContext_finally ::
  "stream \<Rightarrow> jsstring \<Rightarrow> (js_error + unit) \<Rightarrow> stream \<times> (js_error + unit)" where
  "retrieveContext_finally s msg completion =
     (case sendUpdate s ''Done'' (lit ''Processing complete for: '' @ msg) of
        Inl e \<Rightarrow> (s, Inl e)
      | Inr s' \<Rightarrow> (s', completion))"

definition retrieveContext ::
  "collaborators \<Rightarrow> jsstring \<Rightarrow> jsstring \<Rightarrow> settings \<Rightarrow> stream \<Rightarrow> stream \<times> (js_error + unit)" where
  "retrieveContext c userId msg st s0 =
    (let (s, r) = retrieveContext_try c userId msg st s0;
         (s', r') = (case r of
                       Inl error \<Rightarrow> retrieveContext_catch s error
                     | Inr _ \<Rightarrow> (s, Inr ()))
     in retrieveContext_finally s' msg r')"

section \<open>The embedding service (src/lib/service/openai.ts)\<close>

subsection \<open>Helpers\<close>

definition toAscii :: "jsstring \<Rightarrow> jsstring" where
  \<comment> \<open>\<open>str.replace(/[^\x00-\x7F]/g, '')\<close>: every code unit above 0x7F is dropped\<close>
  "toAscii str = filter (\<lambda>u. u \<le> 0x7F) str"

fun is_object :: "json \<Rightarrow> bool" where
  \<comment> \<open>\<open>typeof value === 'object' && value !== null\<close>\<close>
  "is_object (JArr _) = True"
| "is_object (JObj _) = True"
| "is_object _ = False"

fun truthy :: "json \<Rightarrow> bool" where
  "truthy JUndefined = False"
| "truthy JNull = False"
| "truthy (JBool b) = b"
| "truthy (JNum n) = (n \<noteq> 0)"
| "truthy (JStr s) = (s \<noteq> [])"
| "truthy (JArr _) = True"
| "truthy (JObj _) = True"

fun entries :: "json \<Rightarrow> (jsstring \<times> json) list" where
  \<comment> \<open>\<open>Object.entries\<close>: the pairs of an object; an array's pairs are keyed by its indices\<close>
  "entries (JObj kvs) = kvs"
| "entries (JArr xs) = zip (map show_nat [0..<length xs]) xs"
| "entries _ = []"

text \<open>
  What the engine prints is a parameter of the model: \<open>stringify v\<close> is the text of
  \<open>${JSON.stringify(v)}\<close>, \<open>to_text v\<close> the text of \<open>${v}\<close>, and \<open>aborted\<close> the error the
  client library rejects with when the request's abort signal fires.
\<close>

record js_env =
  stringify :: "json \<Rightarrow> jsstring"
  to_text :: "json \<Rightarrow> jsstring"
  aborted :: js_error

definition flatten_value :: "js_env \<Rightarrow> json \<Rightarrow> json" where
  \<comment> \<open>the value \<open>transformObjectValues\<close> stores under a key\<close>
  "flatten_value env v =
     (if is_object v
      then JArr (map (\<lambda>(k, v'). JStr (k @ lit '':'' @ stringify env v')) (entries v))
      else v)"

definition transformObjectValues :: "js_env \<Rightarrow> js_object \<Rightarrow> js_object" where
  \<comment> \<open>\<open>reduce\<close> over the entries; \<open>acc[key] = x\<close> is \<open>AList.update key x acc\<close>\<close>
  "transformObjectValues env obj =
     foldl (\<lambda>acc (k, v). AList.update k (flatten_value env v) acc) [] obj"

subsection \<open>The provider call\<close>

record response =
  data :: "vector list"

text \<open>
  A call \<open>openai.embeddings.create\<close> settles after \<open>latency\<close> milliseconds with
  \<open>outcome\<close>, unless it is aborted before. With the abort signal of a timer of \<open>t\<close>
  milliseconds, the call is rejected with \<open>aborted env\<close> once \<open>t\<close> milliseconds have
  passed; without a signal the caller waits for the outcome however long it takes.
\<close>

datatype reply = Reply (latency: nat) (outcome: "js_error + response")

definition create_embedding :: "js_env \<Rightarrow> nat option \<Rightarrow> reply \<Rightarrow> js_error + response" where
  "create_embedding env signal r =
     (case signal of
        None \<Rightarrow> outcome r
      | Some t \<Rightarrow> if latency r < t then outcome r else Inl (aborted env))"

definition first_embedding :: "response \<Rightarrow> js_error + vector" where
  \<comment> \<open>\<open>response.data[0].embedding\<close>\<close>
  "first_embedding resp =
     (case data resp of
        [] \<Rightarrow> Inl (TypeError_of (lit ''embedding''))
      | v # _ \<Rightarrow> Inr v)"

text \<open>
  The calls that leave the service are recorded: the limiter each one was scheduled
  through (\<open>None\<close>: it was made directly), the text sent, the timeout whose abort
  signal the call carries (\<open>None\<close>: no signal), and the time in milliseconds at which
  the call is made.
\<close>

record provider_call =
  gate :: "nat option"
  input_text :: jsstring
  timeout_ms :: "nat option"
  dispatched_at :: nat

record limiter_options =
  reservoir :: nat
  reservoirRefreshAmount :: nat
  reservoirRefreshInterval :: nat
  minTime :: nat
  maxConcurrent :: nat

text \<open>
  The state outside the functions: the generator behind \<open>uuidv4()\<close> (the \<open>n\<close>-th identifier
  it hands out is \<open>uuid_source n\<close>), the text of \<open>new Date().toLocaleString()\<close>, the
  value of \<open>Date.now()\<close>, and the limiter objects constructed so far (a limiter's
  identity is its position).
\<close>

record world =
  uuid_source :: "nat \<Rightarrow> jsstring"
  uuid_count :: nat
  clock_text :: jsstring
  clock_ms :: nat
  limiters :: "limiter_options list"

definition uuidv4 :: "world \<Rightarrow> jsstring \<times> world" where
  "uuidv4 w = (uuid_source w (uuid_count w), w\<lparr>uuid_count := Suc (uuid_count w)\<rparr>)"

subsection \<open>embedMessage\<close>

text \<open>
  The result lists the calls made, the error lines logged (the info lines and the timing
  line of the \<open>finally\<close> clause are left out), the value returned or the error rethrown,
  and the state afterwards.
\<close>

definition messageToEmbed :: "world \<Rightarrow> jsstring \<Rightarrow> jsstring \<Rightarrow> jsstring" where
  "messageToEmbed w userId content =
     lit ''Date: '' @ clock_text w @ lit ''. User: '' @ userId @ lit ''. Message: '' @ content
       @ lit ''. Metadata: '' @ []"

definition embedMessage ::
  "js_env \<Rightarrow> world \<Rightarrow> jsstring \<Rightarrow> jsstring \<Rightarrow> reply \<Rightarrow>
     provider_call list \<times> jsstring list \<times> (js_error + embedding) \<times> world" where
  "embedMessage env w userId content r =
    (let call = \<lparr>gate = None, input_text = messageToEmbed w userId content, timeout_ms = None,
                 dispatched_at = clock_ms w\<rparr>;
         failed = (\<lambda>error.
            ([call],
             [lit ''Failed to embed message for user: '' @ userId @ lit ''. Error: ''
                @ err_message error],
             Inl error, w))
     in case create_embedding env None r of
          Inl error \<Rightarrow> failed error
        | Inr resp \<Rightarrow>
           (case first_embedding resp of
              Inl error \<Rightarrow> failed error
            | Inr embeddingValues \<Rightarrow>
               (let (u, w') = uuidv4 w
                in ([call], [], Inr \<lparr>eid = u, evalues = embeddingValues, emetadata = None\<rparr>, w'))))"

subsection \<open>embedDocument\<close>

record knowledgebase_file =
  name :: "jsstring option"
  key :: jsstring
  url :: "jsstring option"

record parsed_element =
  chunk_text :: jsstring
  chunk_metadata :: "js_object option"

definition interpolate :: "jsstring option \<Rightarrow> jsstring" where
  \<comment> \<open>\<open>${s}\<close> for a string that may be \<open>undefined\<close>\<close>
  "interpolate s = (case s of None \<Rightarrow> lit ''undefined'' | Some t \<Rightarrow> t)"

definition js_string_or_undefined :: "jsstring option \<Rightarrow> json" where
  "js_string_or_undefined s = (case s of None \<Rightarrow> JUndefined | Some t \<Rightarrow> JStr t)"

definition chunk_id :: "jsstring \<Rightarrow> jsstring \<Rightarrow> nat \<Rightarrow> jsstring" where
  \<comment> \<open>\<open>`${toAscii(file.name)}#${file.key}#${index + 1}`\<close>\<close>
  "chunk_id fileName fileKey index =
     toAscii fileName @ lit ''#'' @ fileKey @ lit ''#'' @ show_nat (index + 1)"

definition citation_of :: "js_env \<Rightarrow> knowledgebase_file \<Rightarrow> js_object \<Rightarrow> jsstring" where
  "citation_of env file md =
    (let page_number = (case map_of md (lit ''page_number'') of None \<Rightarrow> JUndefined | Some v \<Rightarrow> v);
         pageInfo = (if truthy page_number then lit '', Page '' @ to_text env page_number else [])
     in lit ''['' @ interpolate (name file) @ pageInfo @ lit '']('' @ interpolate (url file)
          @ lit '')'')"

text \<open>
  The statements of \<open>embedChunk\<close> after the awaited call, in the order of the source; each
  one that throws ends the \<open>try\<close> block. \<open>Object.entries\<close> of an absent metadata and
  \<open>toAscii\<close> of an absent file name throw a TypeError.
\<close>

definition embedChunk_build ::
  "js_env \<Rightarrow> jsstring \<Rightarrow> knowledgebase_file \<Rightarrow> parsed_element \<Rightarrow> nat \<Rightarrow> response \<Rightarrow>
     js_error + embedding" where
  "embedChunk_build env userId file chunk index resp =
    (case chunk_metadata chunk of
       None \<Rightarrow> Inl (JsError (lit ''TypeError'') (lit ''Cannot convert undefined or null to object''))
     | Some md \<Rightarrow>
        (let transformedMetadata = transformObjectValues env md in
         case name file of
           None \<Rightarrow> Inl (TypeError_of (lit ''replace''))
         | Some fileName \<Rightarrow>
            (let newId = chunk_id fileName (key file) index in
             case first_embedding resp of
               Inl e \<Rightarrow> Inl e
             | Inr embeddingValues \<Rightarrow>
                (let citation = citation_of env file md;
                     metadata =
                       AList.update (lit ''citation'') (JStr citation)
                         (AList.update (lit ''url'') (js_string_or_undefined (url file))
                           (AList.update (lit ''userId'') (JStr userId)
                             (AList.update (lit ''text'') (JStr (chunk_text chunk))
                               transformedMetadata)))
                 in Inr \<lparr>eid = newId, evalues = embeddingValues, emetadata = Some metadata\<rparr>))))"

definition embedChunk_catch :: "knowledgebase_file \<Rightarrow> nat \<Rightarrow> js_error \<Rightarrow> jsstring" where
  \<comment> \<open>the line the \<open>catch\<close> clause logs before it rethrows\<close>
  "embedChunk_catch file index error =
     (if err_name error = lit ''AbortError''
      then lit ''Embedding request for chunk '' @ show_nat (index + 1) @ lit '' timed out.''
      else lit ''Failed to embed chunk '' @ show_nat (index + 1) @ lit '' for file: ''
             @ interpolate (name file) @ lit ''. Error: '' @ err_message error)"

definition embedChunk ::
  "js_env \<Rightarrow> jsstring \<Rightarrow> knowledgebase_file \<Rightarrow> parsed_element \<Rightarrow> nat \<Rightarrow> reply \<Rightarrow>
     jsstring list \<times> (js_error + embedding)" where
  "embedChunk env userId file chunk index r =
    (let attempt = (case create_embedding env (Some 15000) r of
                      Inl e \<Rightarrow> Inl e
                    | Inr resp \<Rightarrow> embedChunk_build env userId file chunk index resp)
     in case attempt of
          Inl error \<Rightarrow> ([embedChunk_catch file index error], Inl error)
        | Inr emb \<Rightarrow> ([], Inr emb))"

subsection \<open>The limiter\<close>

text \<open>
  Modelled from the spec: the rate limiter behind \<open>limiter.schedule\<close> (the Bottleneck
  library, which is not among the sources). The spec describes it as a reservoir of
  permits refilled in full every fixed interval, a ceiling on the calls in flight and a
  minimum spacing between dispatches, enforced jointly: a call is dispatched only when
  the reservoir is not empty, fewer calls than the ceiling are in flight and the spacing
  has elapsed since the last dispatch. Jobs are served in the order they were
  scheduled. Times are in milliseconds.
\<close>

record limiter_state =
  permits :: nat
  next_refresh :: nat
  last_launch :: "nat option"
  in_flight :: "nat list"

definition new_limiter :: "limiter_options \<Rightarrow> nat \<Rightarrow> limiter_state" where
  \<comment> \<open>Modelled from the spec: a limiter constructed at time \<open>now\<close>, its reservoir full\<close>
  "new_limiter opts now =
     \<lparr>permits = reservoir opts, next_refresh = now + reservoirRefreshInterval opts,
      last_launch = None, in_flight = []\<rparr>"

definition refreshed :: "limiter_options \<Rightarrow> limiter_state \<Rightarrow> nat \<Rightarrow> limiter_state" where
  \<comment> \<open>Modelled from the spec: the reservoir at time \<open>t\<close>, refilled in full at every interval\<close>
  "refreshed opts st t =
     (if t < next_refresh st then st
      else st\<lparr>permits := reservoirRefreshAmount opts,
              next_refresh := next_refresh st + reservoirRefreshInterval opts *
                (Suc ((t - next_refresh st) div reservoirRefreshInterval opts))\<rparr>)"

definition running_at :: "limiter_state \<Rightarrow> nat \<Rightarrow> nat list" where
  \<comment> \<open>Modelled from the spec: the finish times of the calls still in flight at time \<open>t\<close>\<close>
  "running_at st t = filter (\<lambda>finish. t < finish) (in_flight st)"

definition admitted :: "limiter_options \<Rightarrow> limiter_state \<Rightarrow> nat \<Rightarrow> bool" where
  \<comment> \<open>Modelled from the spec: the three conditions for a dispatch at time \<open>t\<close>\<close>
  "admitted opts st t =
     (0 < permits (refreshed opts st t) \<and>
      length (running_at st t) < maxConcurrent opts \<and>
      (case last_launch st of None \<Rightarrow> True | Some l \<Rightarrow> l + minTime opts \<le> t))"

definition spacing_time :: "limiter_options \<Rightarrow> limiter_state \<Rightarrow> nat \<Rightarrow> nat" where
  \<comment> \<open>Modelled from the spec: from \<open>t\<close> on, the first time the spacing has elapsed\<close>
  "spacing_time opts st t =
     (case last_launch st of None \<Rightarrow> t | Some l \<Rightarrow> max t (l + minTime opts))"

definition slot_time :: "limiter_options \<Rightarrow> limiter_state \<Rightarrow> nat \<Rightarrow> nat" where
  \<comment> \<open>Modelled from the spec: from \<open>t\<close> on, the first time fewer calls than the ceiling are
      in flight: when too many are, the time at which enough of them have finished\<close>
  "slot_time opts st t =
     (let running = running_at st t in
      if length running < maxConcurrent opts then t
      else sort running ! (length running - maxConcurrent opts))"

definition permit_time :: "limiter_options \<Rightarrow> limiter_state \<Rightarrow> nat \<Rightarrow> nat" where
  \<comment> \<open>Modelled from the spec: from \<open>t\<close> on, the first time the reservoir is not empty: when
      it is empty, the next refresh\<close>
  "permit_time opts st t =
     (if 0 < permits (refreshed opts st t) then t else next_refresh (refreshed opts st t))"

definition admission_time :: "limiter_options \<Rightarrow> limiter_state \<Rightarrow> nat \<Rightarrow> nat" where
  \<comment> \<open>Modelled from the spec: when a job scheduled at time \<open>now\<close> is dispatched\<close>
  "admission_time opts st now =
     permit_time opts st (slot_time opts st (spacing_time opts st now))"

definition launched :: "limiter_options \<Rightarrow> limiter_state \<Rightarrow> nat \<Rightarrow> nat \<Rightarrow> limiter_state" where
  \<comment> \<open>Modelled from the spec: the limiter after it dispatched at time \<open>t\<close> a job that runs
      for \<open>d\<close> milliseconds\<close>
  "launched opts st t d =
     (let st' = refreshed opts st t
      in st'\<lparr>permits := permits st' - 1, last_launch := Some t,
             in_flight := (t + d) # in_flight st\<rparr>)"

fun run_limiter ::
  "limiter_options \<Rightarrow> limiter_state \<Rightarrow> nat \<Rightarrow> nat list \<Rightarrow> (nat \<times> limiter_state) list" where
  \<comment> \<open>Modelled from the spec: jobs of the given durations, all scheduled at time \<open>now\<close>; for
      each job the time of its dispatch and the state the limiter was in just before\<close>
  "run_limiter opts st now [] = []"
| "run_limiter opts st now (d # ds) =
     (let t = admission_time opts st now
      in (t, st) # run_limiter opts (launched opts st t d) now ds)"

text \<open>
  \<open>embedDocument\<close> constructs its own limiter, hands every chunk to \<open>limiter.schedule\<close>,
  which dispatches the calls one after the other as the limiter admits them, and waits
  for all of them to settle (\<open>Promise.allSettled\<close>). \<open>settle_chunks\<close> is the
  array of settled results with the lines each chunk's \<open>catch\<close> clause logged; \<open>replies i\<close>
  is the provider's answer to the call for chunk \<open>i\<close>.
\<close>

definition embedDocument_limiter :: limiter_options where
  "embedDocument_limiter =
     \<lparr>reservoir = 5000, reservoirRefreshAmount = 5000, reservoirRefreshInterval = 60 * 1000,
      minTime = 12, maxConcurrent = 50\<rparr>"

definition settle_chunks ::
  "js_env \<Rightarrow> jsstring \<Rightarrow> knowledgebase_file \<Rightarrow> parsed_element list \<Rightarrow> (nat \<Rightarrow> reply) \<Rightarrow>
     (jsstring list \<times> (js_error + embedding)) list" where
  "settle_chunks env userId file chunks replies =
     map (\<lambda>(index, chunk). embedChunk env userId file chunk index (replies index))
       (enumerate 0 chunks)"

fun process_results :: "nat \<Rightarrow> (js_error + embedding) list \<Rightarrow> embedding list \<times> jsstring list" where
  \<comment> \<open>the \<open>for\<close> loop over the settled results, from index \<open>i\<close> on\<close>
  "process_results i [] = ([], [])"
| "process_results i (result # rest) =
     (let (successfulEmbeddings, logged) = process_results (Suc i) rest
      in case result of
           Inr v \<Rightarrow> (v # successfulEmbeddings, logged)
         | Inl reason \<Rightarrow>
             (successfulEmbeddings,
              (lit ''Embedding failed for chunk '' @ show_nat (i + 1) @ lit '': ''
                 @ err_message reason) # logged))"

text \<open>
  Nothing between \<open>try\<close> and \<open>return\<close> throws once the chunks have settled, so the
  \<open>catch\<close> clause of \<open>embedDocument\<close> (log and rethrow) has no branch here. The lines of
  the chunks are listed in index order, before the lines of the loop.
\<close>

definition call_duration :: "reply \<Rightarrow> nat" where
  \<comment> \<open>how long the job of a chunk runs: until the provider settles or its timer fires\<close>
  "call_duration r = (if latency r < 15000 then latency r else 15000)"

definition embedDocument_schedule ::
  "world \<Rightarrow> parsed_element list \<Rightarrow> (nat \<Rightarrow> reply) \<Rightarrow> (nat \<times> limiter_state) list" where
  \<comment> \<open>the limiter is constructed and all chunks are scheduled at the time of the call\<close>
  "embedDocument_schedule w chunks replies =
     run_limiter embedDocument_limiter (new_limiter embedDocument_limiter (clock_ms w))
       (clock_ms w) (map (\<lambda>i. call_duration (replies i)) [0..<length chunks])"

definition embedDocument ::
  "js_env \<Rightarrow> world \<Rightarrow> jsstring \<Rightarrow> knowledgebase_file \<Rightarrow> parsed_element list \<Rightarrow> (nat \<Rightarrow> reply) \<Rightarrow>
     provider_call list \<times> jsstring list \<times> (js_error + embedding list) \<times> world" where
  "embedDocument env w userId file chunks replies =
    (let limiter = length (limiters w);
         w' = w\<lparr>limiters := limiters w @ [embedDocument_limiter]\<rparr>;
         calls = map (\<lambda>(chunk, t, st). \<lparr>gate = Some limiter, input_text = chunk_text chunk,
                                         timeout_ms = Some 15000, dispatched_at = t\<rparr>)
                   (zip chunks (embedDocument_schedule w chunks replies));
         settled = settle_chunks env userId file chunks replies;
         (successfulEmbeddings, logged) = process_results 0 (map snd settled)
     in (calls, concat (map fst settled) @ logged, Inr successfulEmbeddings, w'))"

section \<open>The Qdrant provider (src/lib/service/qdrant.ts)\<close>

record point =
  point_id :: jsstring
  payload :: js_object
  point_vector :: vector

text \<open>
  A delete request carries the conditions of its \<open>must\<close> filter; a condition compares the
  payload field \<open>cond_key\<close> with \<open>cond_value\<close>, which is \<open>None\<close> when the source passes
  \<open>undefined\<close>. The client is a parameter of \<open>deleteFromVectorDb\<close>: given the conditions
  and the stored points it rejects the request or returns the points that remain.
\<close>

record match_condition =
  cond_key :: jsstring
  cond_value :: "jsstring option"

type_synonym delete_client = "match_condition list \<Rightarrow> point list \<Rightarrow> js_error + point list"

definition falsy :: "jsstring option \<Rightarrow> bool" where
  \<comment> \<open>\<open>!s\<close> for a string that may be \<open>undefined\<close>\<close>
  "falsy s = (case s of None \<Rightarrow> True | Some t \<Rightarrow> t = [])"

definition delete_filter :: "knowledgebase_file \<Rightarrow> match_condition list" where
  "delete_filter file =
     [\<lparr>cond_key = lit ''name'', cond_value = name file\<rparr>,
      \<lparr>cond_key = lit ''url'', cond_value = url file\<rparr>]"

text \<open>
  The result lists the requests sent to the store, the error lines logged, the value
  returned or the error rethrown, and the stored points afterwards.
\<close>

definition deleteFromVectorDb ::
  "delete_client \<Rightarrow> point list \<Rightarrow> jsstring \<Rightarrow> knowledgebase_file \<Rightarrow>
     match_condition list list \<times> jsstring list \<times> (js_error + nat) \<times> point list" where
  "deleteFromVectorDb client store userId file =
    (let failed = (\<lambda>error.
           [lit ''Failed to delete from vector DB for user '' @ userId @ lit ''. Error: ''
              @ err_message error])
     in if falsy (name file) \<and> falsy (url file) then
          (let error = Error_of (lit ''No filename or URL provided for deletion.'')
           in ([], failed error, Inl error, store))
        else
          (case client (delete_filter file) store of
             Inl error \<Rightarrow> ([delete_filter file], failed error, Inl error, store)
           | Inr store' \<Rightarrow> ([delete_filter file], [], Inr 1, store')))"

text \<open>
  The store's side of a delete, after Qdrant's filter rules: a point is selected when it
  satisfies every \<open>must\<close> condition, and a match condition is satisfied when the payload
  has the field with exactly that value. A condition that arrives without a value is
  malformed; the request is rejected and nothing is deleted.
\<close>

definition cond_holds :: "point \<Rightarrow> match_condition \<Rightarrow> bool" where
  "cond_holds p c =
     (case cond_value c of
        None \<Rightarrow> False
      | Some v \<Rightarrow> map_of (payload p) (cond_key c) = Some (JStr v))"

definition qdrant_delete :: delete_client where
  "qdrant_delete must store =
     (if list_ex (\<lambda>c. cond_value c = None) must
      then Inl (Error_of (lit ''Bad Request''))
      else Inr (filter (\<lambda>p. \<not> list_all (cond_holds p) must) store))"

definition query ::
  "jsstring \<Rightarrow> embedding \<Rightarrow> nat \<Rightarrow> jsstring list \<times> (js_error + query_result)" where
  \<comment> \<open>the \<open>try\<close> block throws at once; the \<open>catch\<close> clause logs the error and rethrows it\<close>
  "query userId embeddings topK =
    (let error = Error_of (lit ''query function is not implemented'')
     in ([lit ''Query failed for user '' @ userId @ lit ''. Error: '' @ err_message error],
         Inl error))"

definition qdrant_provider :: vector_db_provider where
  "qdrant_provider = \<lparr>query_of = (\<lambda>userId embeddings topK. snd (query userId embeddings topK))\<rparr>"

section \<open>Reading results\<close>

text \<open>
  The functions above return the calls (or requests) made, the lines logged, the result
  and the state afterwards, in this order.
\<close>

definition calls_of :: "'a \<times> 'b \<times> 'c \<times> 'd \<Rightarrow> 'a" where
  "calls_of x = fst x"

definition logged_of :: "'a \<times> 'b \<times> 'c \<times> 'd \<Rightarrow> 'b" where
  "logged_of x = fst (snd x)"

definition result_of :: "'a \<times> 'b \<times> 'c \<times> 'd \<Rightarrow> 'c" where
  "result_of x = fst (snd (snd x))"

definition state_of :: "'a \<times> 'b \<times> 'c \<times> 'd \<Rightarrow> 'd" where
  "state_of x = snd (snd (snd x))"

definition settled_results ::
  "js_env \<Rightarrow> jsstring \<Rightarrow> knowledgebase_file \<Rightarrow> parsed_element list \<Rightarrow> (nat \<Rightarrow> reply) \<Rightarrow>
     (js_error + embedding) list" where
  \<comment> \<open>the array \<open>embeddings\<close> of \<open>embedDocument\<close>: \<open>Inl\<close> rejected, \<open>Inr\<close> fulfilled\<close>
  "settled_results env userId file chunks replies =
     map snd (settle_chunks env userId file chunks replies)"

definition failure_line :: "nat \<Rightarrow> js_error \<Rightarrow> jsstring" where
  \<comment> \<open>the line the loop of \<open>embedDocument\<close> logs for the rejected result at index \<open>i\<close>\<close>
  "failure_line i reason =
     lit ''Embedding failed for chunk '' @ show_nat (i + 1) @ lit '': '' @ err_message reason"

fun flat_json :: "json \<Rightarrow> bool" where
  \<comment> \<open>a primitive value, or an array of strings\<close>
  "flat_json (JObj _) = False"
| "flat_json (JArr xs) = list_all (\<lambda>x. case x of JStr _ \<Rightarrow> True | _ \<Rightarrow> False) xs"
| "flat_json _ = True"

definition reserved_keys :: "jsstring set" where
  \<comment> \<open>the keys \<open>embedChunk\<close> sets itself, after the spread of the transformed metadata\<close>
  "reserved_keys = {lit ''text'', lit ''userId'', lit ''url'', lit ''citation''}"

section \<open>Sample inputs\<close>

definition demo_embedding :: embedding where
  "demo_embedding = \<lparr>eid = lit ''m1'', evalues = [1, 2], emetadata = None\<rparr>"

definition demo_settings :: settings where
  "demo_settings =
     \<lparr>forge = Some \<lparr>vectorizationProvider = lit ''qdrant''\<rparr>,
      knowledgebase = Some \<lparr>vectorDbTopK = 2, cohereTopN = 1\<rparr>\<rparr>"

definition fixed_provider :: "query_result \<Rightarrow> vector_db_provider" where
  "fixed_provider qr = \<lparr>query_of = (\<lambda>userId emb topK. Inr qr)\<rparr>"

definition demo_collaborators ::
  "(js_error + embedding) \<Rightarrow> vector_db_provider \<Rightarrow> (js_error + jsstring) \<Rightarrow> collaborators" where
  "demo_collaborators e p r =
     \<lparr>c_embedMessage = (\<lambda>userId msg. e),
      c_getVectorDbProvider = (\<lambda>providerName. Inr p),
      c_rerank = (\<lambda>msg ctx kb. r)\<rparr>"

fun sample_print :: "json \<Rightarrow> jsstring" where
  \<comment> \<open>a printer for the sample environment; containers are not descended into\<close>
  "sample_print JUndefined = lit ''undefined''"
| "sample_print JNull = lit ''null''"
| "sample_print (JBool b) = (if b then lit ''true'' else lit ''false'')"
| "sample_print (JNum n) = (if n < 0 then lit ''-'' else []) @ show_nat (nat \<bar>n\<bar>)"
| "sample_print (JStr s) = [34] @ s @ [34]"
| "sample_print (JArr xs) = lit ''[..]''"
| "sample_print (JObj kvs) = lit ''{..}''"

definition demo_env :: js_env where
  "demo_env =
     \<lparr>stringify = sample_print, to_text = sample_print,
      aborted = JsError (lit ''AbortError'') (lit ''Request was aborted.'')\<rparr>"

definition demo_world :: world where
  "demo_world =
     \<lparr>uuid_source = (\<lambda>n. replicate (Suc n) 0x61), uuid_count = 0,
      clock_text = lit ''11/2/2026, 9:00:00 AM'', clock_ms = 0, limiters = []\<rparr>"

definition demo_file :: knowledgebase_file where
  "demo_file =
     \<lparr>name = Some (lit ''caf'' @ [0xE9] @ lit ''.pdf''), key = lit ''k1'',
      url = Some (lit ''https://files/k1'')\<rparr>"

definition demo_chunk :: "nat \<Rightarrow> parsed_element" where
  "demo_chunk n =
     \<lparr>chunk_text = lit ''part '' @ show_nat n,
      chunk_metadata = Some [(lit ''page_number'', JNum (int n)),
                             (lit ''languages'', JArr [JStr (lit ''eng'')])]\<rparr>"

definition demo_chunks :: "parsed_element list" where
  "demo_chunks = map demo_chunk [1, 2, 3, 4, 5, 6, 7, 8, 9, 10]"

definition demo_response :: response where
  "demo_response = \<lparr>data = [[1 / 4, 3 / 4]]\<rparr>"

definition demo_replies :: "nat \<Rightarrow> reply" where
  \<comment> \<open>the calls for the chunks 3 and 7 (indices 2 and 6) take twenty seconds\<close>
  "demo_replies i =
     (if i = 2 \<or> i = 6 then Reply 20000 (Inr demo_response) else Reply 120 (Inr demo_response))"

definition demo_point :: point where
  "demo_point =
     \<lparr>point_id = lit ''p-1'',
      payload = [(lit ''name'', JStr (lit ''a.pdf'')), (lit ''url'', JStr (lit ''https://files/a''))],
      point_vector = [1 / 4, 3 / 4]\<rparr>"

definition name_only_file :: knowledgebase_file where
  "name_only_file = \<lparr>name = Some (lit ''a.pdf''), key = lit ''k1'', url = None\<rparr>"

definition slow_reply :: reply where
  \<comment> \<open>the provider answers after twenty seconds\<close>
  "slow_reply = Reply 20000 (Inr demo_response)"

definition other_replies :: "nat \<Rightarrow> reply" where
  \<comment> \<open>another run: other latencies and vectors, the calls for chunks 3 and 7 time out again\<close>
  "other_replies i =
     (if i = 2 \<or> i = 6 then Reply 15000 (Inr demo_response)
      else Reply 90 (Inr \<lparr>data = [[1 / 8]]\<rparr>))"

definition small_limiter :: limiter_options where
  \<comment> \<open>a limiter small enough to watch: two permits a second, one call at a time\<close>
  "small_limiter =
     \<lparr>reservoir = 2, reservoirRefreshAmount = 2, reservoirRefreshInterval = 1000,
      minTime = 10, maxConcurrent = 1\<rparr>"

section \<open>The event sequence of a retrieval session\<close>

lemma sendUpdate_open:
  "room s \<noteq> Some 0 \<Longrightarrow>
     sendUpdate s st msg =
       Inr \<lparr>written = written s @ [update_data st msg],
            room = map_option (\<lambda>n. n - 1) (room s)\<rparr>"
  by (simp add: sendUpdate_def enqueue_def)

lemma sendUpdate_closed:
  "room s = Some 0 \<Longrightarrow> sendUpdate s st msg = Inl stream_closed"
  by (simp add: sendUpdate_def enqueue_def)



section \<open>The terminal event\<close>

lemma done_is_no_other_status:
  "lit ''Done'' \<noteq> lit ''Retrieving context''" "lit ''Done'' \<noteq> lit ''Embedding complete''"
  "lit ''Done'' \<noteq> lit ''Query complete''" "lit ''Done'' \<noteq> lit ''Reranking complete''"
  "lit ''Done'' \<noteq> lit ''No context''" "lit ''Done'' \<noteq> lit ''Error''"
  by (simp_all add: lit_def)

lemma sendUpdate_result:
  "sendUpdate s st msg = Inl e \<Longrightarrow> e = stream_closed \<and> room s = Some 0"
  "sendUpdate s st msg = Inr s' \<Longrightarrow> written s' = written s @ [update_data st msg]"
  by (auto simp: sendUpdate_def enqueue_def split: if_splits)

lemma send_keeps_done:
  "sendUpdate s st msg = Inr s' \<Longrightarrow> lit ''Done'' \<noteq> lit st \<Longrightarrow>
     filter (\<lambda>ev. status ev = lit ''Done'') (written s') =
     filter (\<lambda>ev. status ev = lit ''Done'') (written s)"
  by (auto simp: sendUpdate_def enqueue_def update_data_def split: if_splits)

lemma try_sends_no_done:
  "retrieveContext_try c userId msg st s0 = (s, r) \<Longrightarrow>
     filter (\<lambda>ev. status ev = lit ''Done'') (written s) =
     filter (\<lambda>ev. status ev = lit ''Done'') (written s0)"
  unfolding retrieveContext_try_def
  by (simp split: sum.splits prod.splits if_splits
      add: send_keeps_done [OF _ done_is_no_other_status(1)]
           send_keeps_done [OF _ done_is_no_other_status(2)]
           send_keeps_done [OF _ done_is_no_other_status(3)]
           send_keeps_done [OF _ done_is_no_other_status(4)]
           send_keeps_done [OF _ done_is_no_other_status(5)])

lemma catch_sends_no_done:
  "retrieveContext_catch s error = (s', r') \<Longrightarrow>
     filter (\<lambda>ev. status ev = lit ''Done'') (written s') =
     filter (\<lambda>ev. status ev = lit ''Done'') (written s) \<and>
     (\<forall>e. r' = Inl e \<longrightarrow> e = stream_closed \<and> room s' = Some 0)"
  using done_is_no_other_status(6)
  by (auto simp add: retrieveContext_catch_def sendUpdate_def enqueue_def update_data_def
      split: if_splits)

lemma finally_props:
  "retrieveContext_finally s msg completion = (s', r') \<Longrightarrow>
     (\<forall>e. completion = Inl e \<longrightarrow> e = stream_closed \<and> room s = Some 0) \<Longrightarrow>
     (r' = Inr () \<longrightarrow>
        written s' = written s @ [update_data ''Done'' (lit ''Processing complete for: '' @ msg)]) \<and>
     (\<forall>e. r' = Inl e \<longrightarrow> e = stream_closed \<and> room s' = Some 0 \<and> written s' = written s)"
  by (auto simp add: retrieveContext_finally_def sendUpdate_def enqueue_def
      split: if_splits)

lemma retrieveContext_settles:
  assumes "retrieveContext c userId msg st s0 = (s', r')"
  shows "(r' = Inr () \<longrightarrow>
            last (written s') = update_data ''Done'' (lit ''Processing complete for: '' @ msg) \<and>
            length (filter (\<lambda>ev. status ev = lit ''Done'') (written s')) =
              Suc (length (filter (\<lambda>ev. status ev = lit ''Done'') (written s0)))) \<and>
         (\<forall>e. r' = Inl e \<longrightarrow> e = stream_closed \<and> room s' = Some 0 \<and>
            filter (\<lambda>ev. status ev = lit ''Done'') (written s') =
            filter (\<lambda>ev. status ev = lit ''Done'') (written s0))"
proof -
  obtain s r where t: "retrieveContext_try c userId msg st s0 = (s, r)"
    by (cases "retrieveContext_try c userId msg st s0")
  obtain s1 r1 where h: "(case r of Inl error \<Rightarrow> retrieveContext_catch s error
                          | Inr _ \<Rightarrow> (s, Inr ())) = (s1, r1)"
    by (cases "case r of Inl error \<Rightarrow> retrieveContext_catch s error | Inr _ \<Rightarrow> (s, Inr ())")
  have f: "retrieveContext_finally s1 msg r1 = (s', r')"
    using assms by (simp add: retrieveContext_def t h)
  have d0: "filter (\<lambda>ev. status ev = lit ''Done'') (written s) =
            filter (\<lambda>ev. status ev = lit ''Done'') (written s0)"
    by (rule try_sends_no_done [OF t])
  have d1: "filter (\<lambda>ev. status ev = lit ''Done'') (written s1) =
            filter (\<lambda>ev. status ev = lit ''Done'') (written s) \<and>
            (\<forall>e. r1 = Inl e \<longrightarrow> e = stream_closed \<and> room s1 = Some 0)"
    using h catch_sends_no_done [of s _ s1 r1] by (cases r) auto
  have fp: "(r' = Inr () \<longrightarrow>
        written s' = written s1 @ [update_data ''Done'' (lit ''Processing complete for: '' @ msg)]) \<and>
     (\<forall>e. r' = Inl e \<longrightarrow> e = stream_closed \<and> room s' = Some 0 \<and> written s' = written s1)"
    using finally_props [OF f] d1 by blast
  have dd: "status (update_data ''Done'' (lit ''Processing complete for: '' @ msg)) = lit ''Done''"
    by (simp add: update_data_def)
  show ?thesis
  proof (cases r')
    case (Inl e)
    with fp d0 d1 show ?thesis by simp
  next
    case (Inr u)
    with fp have w: "written s' =
        written s1 @ [update_data ''Done'' (lit ''Processing complete for: '' @ msg)]"
      by simp
    show ?thesis
      using d0 d1 dd by (simp add: Inr w)
  qed
qed

lemma retrieveContext_resolves:
  "accepts r 5 \<Longrightarrow> snd (retrieveContext c userId msg st (fresh_stream r)) = Inr ()"
proof (cases r)
  case None
  then show ?thesis
    by (simp add: retrieveContext_def retrieveContext_try_def retrieveContext_catch_def
        retrieveContext_finally_def fresh_stream_def sendUpdate_open
        split: sum.splits prod.splits)
next
  case (Some k)
  assume "accepts r 5"
  with Some show ?thesis
    by (simp add: retrieveContext_def retrieveContext_try_def retrieveContext_catch_def
        retrieveContext_finally_def fresh_stream_def sendUpdate_open accepts_def
        split: sum.splits prod.splits)
qed

text \<open>
  Claim C2 fails when the consumer cancels the stream under the session: here the
  stream takes two events, the third \<open>sendUpdate\<close> throws, so do the ones of the \<open>catch\<close>
  and \<open>finally\<close> clauses, the promise is rejected and Done is never written.
\<close>

theorem retrieveContext_stream_cancelled:
  "snd (retrieveContext
      (demo_collaborators (Inr demo_embedding) (fixed_provider \<lparr>qr_context = [lit ''p1'']\<rparr>)
         (Inr (lit ''ranked'')))
      (lit ''u1'') (lit ''hello'') demo_settings (fresh_stream (Some 2))) = Inl stream_closed \<and>
   map status (written (fst (retrieveContext
      (demo_collaborators (Inr demo_embedding) (fixed_provider \<lparr>qr_context = [lit ''p1'']\<rparr>)
         (Inr (lit ''ranked'')))
      (lit ''u1'') (lit ''hello'') demo_settings (fresh_stream (Some 2))))) =
     [lit ''Retrieving context'', lit ''Embedding complete'']"
  by (simp add: retrieveContext_def retrieveContext_try_def retrieveContext_catch_def
      retrieveContext_finally_def fresh_stream_def sendUpdate_def enqueue_def
      demo_collaborators_def fixed_provider_def demo_settings_def query_stage_def
      update_data_def)

text \<open>
  Claim C2 as amended. No stage exception leaves \<open>retrieveContext\<close>: whatever the stages
  do, on a stream that takes five more events the promise resolves; whenever the promise
  resolves, Done is the last event written and is written exactly once; and the promise
  is rejected only with the error of a stream that has been closed, in which case Done
  is not written.
\<close>

theorem retrieveContext_done_once:
  "(accepts r 5 \<longrightarrow> snd (retrieveContext c userId msg st (fresh_stream r)) = Inr ()) \<and>
   (snd (retrieveContext c userId msg st (fresh_stream r)) = Inr () \<longrightarrow>
      written (fst (retrieveContext c userId msg st (fresh_stream r))) \<noteq> [] \<and>
      last (written (fst (retrieveContext c userId msg st (fresh_stream r)))) =
        update_data ''Done'' (lit ''Processing complete for: '' @ msg) \<and>
      length (filter (\<lambda>ev. status ev = lit ''Done'')
        (written (fst (retrieveContext c userId msg st (fresh_stream r))))) = 1) \<and>
   (\<forall>e. snd (retrieveContext c userId msg st (fresh_stream r)) = Inl e \<longrightarrow>
      e = stream_closed \<and>
      room (fst (retrieveContext c userId msg st (fresh_stream r))) = Some 0 \<and>
      filter (\<lambda>ev. status ev = lit ''Done'')
        (written (fst (retrieveContext c userId msg st (fresh_stream r)))) = [])"
proof -
  obtain s' r' where R: "retrieveContext c userId msg st (fresh_stream r) = (s', r')"
    by (cases "retrieveContext c userId msg st (fresh_stream r)")
  have a: "accepts r 5 \<longrightarrow> r' = Inr ()"
    using retrieveContext_resolves [of r c userId msg st] by (simp add: R)
  have b: "r' = Inr () \<longrightarrow> written s' \<noteq> [] \<and>
      last (written s') = update_data ''Done'' (lit ''Processing complete for: '' @ msg) \<and>
      length (filter (\<lambda>ev. status ev = lit ''Done'') (written s')) = 1"
    using retrieveContext_settles [OF R] by (auto simp: fresh_stream_def)
  have c: "\<forall>e. r' = Inl e \<longrightarrow> e = stream_closed \<and> room s' = Some 0 \<and>
      filter (\<lambda>ev. status ev = lit ''Done'') (written s') = []"
    using retrieveContext_settles [OF R] by (simp add: fresh_stream_def)
  from a b c show ?thesis
    by (simp add: R)
qed

theorem retrieveContext_done_once_witness:
  "snd (retrieveContext
      (demo_collaborators (Inr demo_embedding) qdrant_provider (Inr (lit ''ranked'')))
      (lit ''u1'') (lit ''hello'') demo_settings (fresh_stream None)) = Inr () \<and>
   length (filter (\<lambda>ev. status ev = lit ''Done'') (written (fst (retrieveContext
      (demo_collaborators (Inr demo_embedding) qdrant_provider (Inr (lit ''ranked'')))
      (lit ''u1'') (lit ''hello'') demo_settings (fresh_stream None))))) = 1"
  using retrieveContext_done_once [of None
      "demo_collaborators (Inr demo_embedding) qdrant_provider (Inr (lit ''ranked''))"
      "lit ''u1''" "lit ''hello''" demo_settings]
  by (simp add: accepts_def)

section \<open>Partial failure of a batch\<close>

lemma process_results_Cons:
  "fst (process_results i (r # rs)) =
     (case r of Inr v \<Rightarrow> v # fst (process_results (Suc i) rs)
              | Inl reason \<Rightarrow> fst (process_results (Suc i) rs))"
  "snd (process_results i (r # rs)) =
     (case r of Inr v \<Rightarrow> snd (process_results (Suc i) rs)
              | Inl reason \<Rightarrow> failure_line i reason # snd (process_results (Suc i) rs))"
  by (simp_all add: failure_line_def split: prod.splits sum.splits)

declare process_results.simps(2) [simp del]

lemma process_results_fst:
  "fst (process_results i rs) = map projr (filter (\<lambda>r. \<not> isl r) rs)"
  by (induction rs arbitrary: i) (simp_all add: process_results_Cons split: sum.splits)

lemma process_results_snd_mem:
  "j < length rs \<Longrightarrow> rs ! j = Inl e \<Longrightarrow> failure_line (i + j) e \<in> set (snd (process_results i rs))"
proof (induction rs arbitrary: i j)
  case Nil
  then show ?case by simp
next
  case (Cons r rs)
  show ?case
  proof (cases j)
    case 0
    with Cons.prems show ?thesis
      by (simp add: process_results_Cons)
  next
    case (Suc k)
    with Cons.prems have "failure_line (Suc i + k) e \<in> set (snd (process_results (Suc i) rs))"
      using Cons.IH [of k "Suc i"] by simp
    with Suc show ?thesis
      by (simp add: process_results_Cons split: sum.splits)
  qed
qed

lemma length_settled_results:
  "length (settled_results env userId file chunks replies) = length chunks"
  by (simp add: settled_results_def settle_chunks_def)

lemma settled_results_nth:
  "i < length chunks \<Longrightarrow>
     settled_results env userId file chunks replies ! i =
       snd (embedChunk env userId file (chunks ! i) i (replies i))"
  by (simp add: settled_results_def settle_chunks_def nth_enumerate_eq)

lemma length_fulfilled:
  "length (filter (\<lambda>r. \<not> isl r) rs) = length rs - length (filter isl rs)"
  using sum_length_filter_compl [of isl rs] by simp

lemma embedDocument_result:
  "result_of (embedDocument env w userId file chunks replies) =
     Inr (map projr (filter (\<lambda>r. \<not> isl r) (settled_results env userId file chunks replies)))"
  using process_results_fst [of 0 "settled_results env userId file chunks replies"]
  by (simp add: embedDocument_def result_of_def settled_results_def Let_def case_prod_beta)

lemma embedDocument_logged:
  "logged_of (embedDocument env w userId file chunks replies) =
     concat (map fst (settle_chunks env userId file chunks replies)) @
     snd (process_results 0 (settled_results env userId file chunks replies))"
  by (simp add: embedDocument_def logged_of_def settled_results_def Let_def case_prod_beta)

text \<open>
  Claim C3. Whichever chunk calls are rejected, \<open>embedDocument\<close> returns (it does not
  raise) exactly the embeddings of the fulfilled chunks, in order: as many as there are
  chunks minus the rejected ones; and for every rejected chunk the log holds the line
  \<open>Embedding failed for chunk i+1: reason\<close>.
\<close>

theorem embedDocument_partial_failure:
  "(\<exists>embs. result_of (embedDocument env w userId file chunks replies) = Inr embs \<and>
      embs = map projr (filter (\<lambda>r. \<not> isl r) (settled_results env userId file chunks replies)) \<and>
      length embs =
        length chunks - length (filter isl (settled_results env userId file chunks replies))) \<and>
   (\<forall>i<length chunks. \<forall>reason.
      settled_results env userId file chunks replies ! i = Inl reason \<longrightarrow>
        failure_line i reason \<in> set (logged_of (embedDocument env w userId file chunks replies)))"
proof -
  let ?rs = "settled_results env userId file chunks replies"
  have a: "result_of (embedDocument env w userId file chunks replies) =
             Inr (map projr (filter (\<lambda>r. \<not> isl r) ?rs))"
    by (rule embedDocument_result)
  have b: "length (map projr (filter (\<lambda>r. \<not> isl r) ?rs)) = length chunks - length (filter isl ?rs)"
    by (simp add: length_fulfilled length_settled_results)
  have c: "failure_line i reason \<in> set (logged_of (embedDocument env w userId file chunks replies))"
    if "i < length chunks" "?rs ! i = Inl reason" for i reason
    using process_results_snd_mem [of i ?rs reason 0] that
    by (simp add: embedDocument_logged length_settled_results)
  from a b c show ?thesis by blast
qed

lemma demo_settled_rejected:
  "map isl (settled_results demo_env (lit ''u1'') demo_file demo_chunks demo_replies) =
     [False, False, True, False, False, False, True, False, False, False]"
  "settled_results demo_env (lit ''u1'') demo_file demo_chunks demo_replies ! 2 = Inl (aborted demo_env)"
  "settled_results demo_env (lit ''u1'') demo_file demo_chunks demo_replies ! 6 = Inl (aborted demo_env)"
  by (simp_all add: settled_results_def settle_chunks_def demo_chunks_def enumerate_eq_zip
      embedChunk_def create_embedding_def demo_replies_def demo_env_def
      embedChunk_build_def demo_chunk_def demo_file_def first_embedding_def demo_response_def
      Let_def)

text \<open>
  Ten chunks, the calls for chunks 3 and 7 time out: eight embeddings come back and both
  failures are logged with their chunk number.
\<close>

theorem embedDocument_partial_failure_witness:
  "(\<exists>embs. result_of (embedDocument demo_env demo_world (lit ''u1'') demo_file demo_chunks
               demo_replies) = Inr embs \<and> length embs = 8) \<and>
   failure_line 2 (aborted demo_env) \<in>
     set (logged_of (embedDocument demo_env demo_world (lit ''u1'') demo_file demo_chunks
            demo_replies)) \<and>
   failure_line 6 (aborted demo_env) \<in>
     set (logged_of (embedDocument demo_env demo_world (lit ''u1'') demo_file demo_chunks
            demo_replies))"
proof -
  have n: "length demo_chunks = 10"
    by (simp add: demo_chunks_def)
  have f: "length (filter isl (settled_results demo_env (lit ''u1'') demo_file demo_chunks
             demo_replies)) = 2"
  proof -
    have "length (filter isl (settled_results demo_env (lit ''u1'') demo_file demo_chunks
            demo_replies)) =
          length (filter (\<lambda>b. b) (map isl (settled_results demo_env (lit ''u1'') demo_file
            demo_chunks demo_replies)))"
      by (simp add: filter_map comp_def)
    then show ?thesis
      by (simp add: demo_settled_rejected(1))
  qed
  show ?thesis
    using embedDocument_partial_failure [of demo_env demo_world "lit ''u1''" demo_file
        demo_chunks demo_replies] demo_settled_rejected(2,3) n f
    by auto
qed

section \<open>Embedding identifiers\<close>

lemma embedChunk_success_id:
  "snd (embedChunk env userId file chunk index r) = Inr e \<Longrightarrow>
     \<exists>n. name file = Some n \<and> eid e = chunk_id n (key file) index"
  by (auto simp add: embedChunk_def embedChunk_build_def Let_def
      split: sum.splits option.splits)

lemma set_fulfilled:
  "set (map projr (filter (\<lambda>r. \<not> isl r) rs)) = {e. \<exists>i<length rs. rs ! i = Inr e}"
proof -
  have "set (map projr (filter (\<lambda>r. \<not> isl r) rs)) = {e. Inr e \<in> set rs}"
    by (induction rs) (auto simp: isl_def)
  then show ?thesis
    by (auto simp: in_set_conv_nth)
qed

lemma fulfilled_ids:
  "eid ` set (map projr (filter (\<lambda>r. \<not> isl r) (settled_results env userId file chunks replies))) =
     (case name file of
        None \<Rightarrow> {}
      | Some n \<Rightarrow> {chunk_id n (key file) i | i.
                     i < length chunks \<and> \<not> isl (settled_results env userId file chunks replies ! i)})"
  (is "?L = ?R")
proof -
  let ?rs = "settled_results env userId file chunks replies"
  have sub: "?L \<subseteq> ?R"
  proof
    fix x assume "x \<in> ?L"
    then obtain e i where e: "x = eid e" "i < length chunks" "?rs ! i = Inr e"
      by (auto simp: set_fulfilled length_settled_results simp del: set_map)
    then have "snd (embedChunk env userId file (chunks ! i) i (replies i)) = Inr e"
      by (simp add: settled_results_nth)
    then obtain n where "name file = Some n" "eid e = chunk_id n (key file) i"
      using embedChunk_success_id by blast
    with e show "x \<in> ?R" by auto
  qed
  have sup: "?R \<subseteq> ?L"
  proof
    fix x assume x: "x \<in> ?R"
    then obtain n where n: "name file = Some n" by (cases "name file") auto
    with x obtain i where i: "x = chunk_id n (key file) i" "i < length chunks" "\<not> isl (?rs ! i)"
      by auto
    then obtain e where e: "?rs ! i = Inr e" by (cases "?rs ! i") auto
    then have "snd (embedChunk env userId file (chunks ! i) i (replies i)) = Inr e"
      using i by (simp add: settled_results_nth)
    then have "eid e = chunk_id n (key file) i"
      using embedChunk_success_id n by fastforce
    moreover have "e \<in> set (map projr (filter (\<lambda>r. \<not> isl r) ?rs))"
      using e i unfolding set_fulfilled by (auto simp: length_settled_results)
    ultimately show "x \<in> ?L" using i by (metis image_eqI)
  qed
  from sub sup show ?thesis by blast
qed

text \<open>
  Claim C4 fails in its second half: two runs over the same file and the same two
  chunks return different sets of ids when the call for the second chunk times out in
  one run only.
\<close>

theorem embedDocument_ids_differ:
  "map eid (projr (result_of (embedDocument demo_env demo_world (lit ''u1'') demo_file
      [demo_chunk 1, demo_chunk 2] demo_replies))) =
     map lit [''caf.pdf#k1#1'', ''caf.pdf#k1#2''] \<and>
   map eid (projr (result_of (embedDocument demo_env demo_world (lit ''u1'') demo_file
      [demo_chunk 1, demo_chunk 2] (demo_replies(1 := slow_reply))))) =
     map lit [''caf.pdf#k1#1'']"
  by (simp add: embedDocument_result settled_results_def settle_chunks_def enumerate_eq_zip
      embedChunk_def create_embedding_def demo_replies_def slow_reply_def demo_env_def
      embedChunk_build_def demo_chunk_def demo_file_def first_embedding_def demo_response_def
      Let_def chunk_id_def toAscii_def lit_def show_nat.simps digit_unit_def)

text \<open>
  Claim C4 as amended. Every embedding that \<open>embedDocument\<close> returns belongs to a
  fulfilled chunk at some index \<open>i\<close>, and its id is the file name without its non-ASCII
  code units, \<open>#\<close>, the file key, \<open>#\<close>, and \<open>i + 1\<close> in decimal. The id depends on nothing
  else: a second run over the same file and chunks, whatever the user, the state and the
  vectors the provider returns, yields the same set of ids provided the same chunks are
  fulfilled in both runs.
\<close>

theorem embedDocument_ids:
  "result_of (embedDocument env w userId file chunks replies) = Inr embs \<longrightarrow>
     (\<forall>e\<in>set embs. \<exists>i<length chunks. \<exists>n.
        name file = Some n \<and>
        settled_results env userId file chunks replies ! i = Inr e \<and>
        eid e = toAscii n @ lit ''#'' @ key file @ lit ''#'' @ show_nat (i + 1)) \<and>
     (\<forall>env' w' userId' replies' embs'.
        result_of (embedDocument env' w' userId' file chunks replies') = Inr embs' \<and>
        (\<forall>i<length chunks.
           isl (settled_results env' userId' file chunks replies' ! i) =
           isl (settled_results env userId file chunks replies ! i)) \<longrightarrow>
        eid ` set embs' = eid ` set embs)"
proof
  assume r: "result_of (embedDocument env w userId file chunks replies) = Inr embs"
  let ?rs = "settled_results env userId file chunks replies"
  from r have embs: "embs = map projr (filter (\<lambda>r. \<not> isl r) ?rs)"
    by (simp add: embedDocument_result)
  have one: "\<exists>i<length chunks. \<exists>n. name file = Some n \<and> ?rs ! i = Inr e \<and>
               eid e = toAscii n @ lit ''#'' @ key file @ lit ''#'' @ show_nat (i + 1)"
    if "e \<in> set embs" for e
  proof -
    from that obtain i where i: "i < length chunks" "?rs ! i = Inr e"
      unfolding embs set_fulfilled by (auto simp: length_settled_results)
    then have "snd (embedChunk env userId file (chunks ! i) i (replies i)) = Inr e"
      by (simp add: settled_results_nth)
    then obtain n where "name file = Some n" "eid e = chunk_id n (key file) i"
      using embedChunk_success_id by blast
    with i show ?thesis
      by (auto simp: chunk_id_def)
  qed
  have two: "eid ` set embs' = eid ` set embs"
    if r': "result_of (embedDocument env' w' userId' file chunks replies') = Inr embs'"
      and same: "\<forall>i<length chunks.
           isl (settled_results env' userId' file chunks replies' ! i) = isl (?rs ! i)"
    for env' w' userId' replies' embs'
  proof -
    from r' have embs': "embs' = map projr (filter (\<lambda>r. \<not> isl r)
        (settled_results env' userId' file chunks replies'))"
      by (simp add: embedDocument_result)
    show ?thesis
      unfolding embs embs' fulfilled_ids using same
      by (cases "name file") auto
  qed
  from one two show "(\<forall>e\<in>set embs. \<exists>i<length chunks. \<exists>n.
        name file = Some n \<and> ?rs ! i = Inr e \<and>
        eid e = toAscii n @ lit ''#'' @ key file @ lit ''#'' @ show_nat (i + 1)) \<and>
     (\<forall>env' w' userId' replies' embs'.
        result_of (embedDocument env' w' userId' file chunks replies') = Inr embs' \<and>
        (\<forall>i<length chunks.
           isl (settled_results env' userId' file chunks replies' ! i) = isl (?rs ! i)) \<longrightarrow>
        eid ` set embs' = eid ` set embs)"
    by blast
qed

text \<open>
  The sample batch: the file name loses its accented letter, and the chunks 3 and 7,
  which time out, have no id. A second run for another user, with other vectors and
  latencies and the same two timeouts, returns the same set of ids.
\<close>

lemma demo_settled_ids:
  "map eid (map projr (filter (\<lambda>r. \<not> isl r)
      (settled_results demo_env (lit ''u1'') demo_file demo_chunks demo_replies))) =
   map lit [''caf.pdf#k1#1'', ''caf.pdf#k1#2'', ''caf.pdf#k1#4'', ''caf.pdf#k1#5'',
            ''caf.pdf#k1#6'', ''caf.pdf#k1#8'', ''caf.pdf#k1#9'', ''caf.pdf#k1#10'']"
  by (simp add: settled_results_def settle_chunks_def demo_chunks_def enumerate_eq_zip
      embedChunk_def create_embedding_def demo_replies_def demo_env_def
      embedChunk_build_def demo_chunk_def demo_file_def first_embedding_def demo_response_def
      Let_def chunk_id_def toAscii_def lit_def show_nat.simps digit_unit_def)

lemma other_settled_rejected:
  "map isl (settled_results demo_env (lit ''u2'') demo_file demo_chunks other_replies) =
     [False, False, True, False, False, False, True, False, False, False]"
  by (simp add: settled_results_def settle_chunks_def demo_chunks_def enumerate_eq_zip
      embedChunk_def create_embedding_def other_replies_def demo_env_def
      embedChunk_build_def demo_chunk_def demo_file_def first_embedding_def Let_def)

theorem embedDocument_ids_witness:
  "map eid (projr (result_of (embedDocument demo_env demo_world (lit ''u1'') demo_file
      demo_chunks demo_replies))) =
     map lit [''caf.pdf#k1#1'', ''caf.pdf#k1#2'', ''caf.pdf#k1#4'', ''caf.pdf#k1#5'',
              ''caf.pdf#k1#6'', ''caf.pdf#k1#8'', ''caf.pdf#k1#9'', ''caf.pdf#k1#10''] \<and>
   eid ` set (projr (result_of (embedDocument demo_env (demo_world\<lparr>uuid_count := 7\<rparr>)
      (lit ''u2'') demo_file demo_chunks other_replies))) =
   eid ` set (projr (result_of (embedDocument demo_env demo_world (lit ''u1'') demo_file
      demo_chunks demo_replies)))"
proof -
  let ?run1 = "embedDocument demo_env demo_world (lit ''u1'') demo_file demo_chunks demo_replies"
  let ?run2 = "embedDocument demo_env (demo_world\<lparr>uuid_count := 7\<rparr>) (lit ''u2'') demo_file
      demo_chunks other_replies"
  have r1: "result_of ?run1 = Inr (projr (result_of ?run1))"
    and r2: "result_of ?run2 = Inr (projr (result_of ?run2))"
    by (simp_all add: embedDocument_result)
  have same: "\<forall>i<length demo_chunks.
      isl (settled_results demo_env (lit ''u2'') demo_file demo_chunks other_replies ! i) =
      isl (settled_results demo_env (lit ''u1'') demo_file demo_chunks demo_replies ! i)"
  proof (intro allI impI)
    fix i assume i: "i < length demo_chunks"
    have "map isl (settled_results demo_env (lit ''u2'') demo_file demo_chunks other_replies) ! i =
          map isl (settled_results demo_env (lit ''u1'') demo_file demo_chunks demo_replies) ! i"
      by (simp only: other_settled_rejected demo_settled_rejected(1))
    with i show "isl (settled_results demo_env (lit ''u2'') demo_file demo_chunks other_replies ! i) =
      isl (settled_results demo_env (lit ''u1'') demo_file demo_chunks demo_replies ! i)"
      by (simp add: length_settled_results)
  qed
  have ids: "map eid (projr (result_of ?run1)) =
     map lit [''caf.pdf#k1#1'', ''caf.pdf#k1#2'', ''caf.pdf#k1#4'', ''caf.pdf#k1#5'',
              ''caf.pdf#k1#6'', ''caf.pdf#k1#8'', ''caf.pdf#k1#9'', ''caf.pdf#k1#10'']"
    using demo_settled_ids by (simp add: embedDocument_result)
  from embedDocument_ids [of demo_env demo_world "lit ''u1''" demo_file demo_chunks
      demo_replies "projr (result_of ?run1)"] r1
  have "\<forall>env' w' userId' replies' embs'.
        result_of (embedDocument env' w' userId' demo_file demo_chunks replies') = Inr embs' \<and>
        (\<forall>i<length demo_chunks.
           isl (settled_results env' userId' demo_file demo_chunks replies' ! i) =
           isl (settled_results demo_env (lit ''u1'') demo_file demo_chunks demo_replies ! i)) \<longrightarrow>
        eid ` set embs' = eid ` set (projr (result_of ?run1))"
    by blast
  with r2 same have "eid ` set (projr (result_of ?run2)) = eid ` set (projr (result_of ?run1))"
    by blast
  with ids show ?thesis by blast
qed

section \<open>Flat metadata\<close>

lemma transform_lookup_gen:
  "distinct (map fst obj) \<Longrightarrow>
     map_of (foldl (\<lambda>acc (k, v). AList.update k (f v) acc) acc obj) k =
       (case map_of obj k of Some v \<Rightarrow> Some (f v) | None \<Rightarrow> map_of acc k)"
proof (induction obj arbitrary: acc)
  case Nil
  then show ?case by simp
next
  case (Cons p obj)
  obtain a b where p: "p = (a, b)" by (cases p)
  from Cons.prems p have d: "distinct (map fst obj)" and na: "map_of obj a = None"
    by (auto simp: map_of_eq_None_iff)
  show ?case
    using Cons.IH [OF d, of "AList.update a (f b) acc"] na
    by (simp add: p update_conv' split: option.splits)
qed

lemma transform_lookup:
  "distinct (map fst obj) \<Longrightarrow>
     map_of (transformObjectValues env obj) k = map_option (flatten_value env) (map_of obj k)"
  by (simp add: transformObjectValues_def transform_lookup_gen split: option.splits)

lemma transform_values_gen:
  "map_of (foldl (\<lambda>acc (k, v). AList.update k (f v) acc) acc obj) k = Some x \<Longrightarrow>
     map_of acc k = Some x \<or> (\<exists>v. x = f v)"
proof (induction obj arbitrary: acc)
  case Nil
  then show ?case by simp
next
  case (Cons p obj)
  obtain a b where p: "p = (a, b)" by (cases p)
  from Cons.prems have "map_of (AList.update a (f b) acc) k = Some x \<or> (\<exists>v. x = f v)"
    using Cons.IH [of "AList.update a (f b) acc"] by (simp add: p)
  then show ?case
    by (auto simp: update_conv' split: if_splits)
qed

lemma flat_flatten_value: "flat_json (flatten_value env v)"
  by (cases v) (simp_all add: flatten_value_def list_all_iff split: prod.splits)

lemma transform_values_flat:
  "map_of (transformObjectValues env obj) k = Some x \<Longrightarrow> flat_json x"
  using transform_values_gen [of "flatten_value env" "[]" obj k x] flat_flatten_value
  by (auto simp: transformObjectValues_def)

lemma embedChunk_success_metadata:
  "snd (embedChunk env userId file chunk index r) = Inr emb \<Longrightarrow>
     \<exists>md. chunk_metadata chunk = Some md \<and>
       emetadata emb = Some
         (AList.update (lit ''citation'') (JStr (citation_of env file md))
           (AList.update (lit ''url'') (js_string_or_undefined (url file))
             (AList.update (lit ''userId'') (JStr userId)
               (AList.update (lit ''text'') (JStr (chunk_text chunk))
                 (transformObjectValues env md)))))"
  by (auto simp add: embedChunk_def embedChunk_build_def Let_def
      split: sum.splits option.splits)

text \<open>
  Claim C6. The metadata of every embedding \<open>embedChunk\<close> returns is flat: whatever key
  is read, the value is a primitive or an array of strings. For a chunk metadata object
  (its keys distinct) and every key other than the four that \<open>embedChunk\<close> sets itself,
  a primitive value is passed through unchanged, and an object or array value is replaced
  by the list of its entries, each printed as \<open>key:JSON\<close>; a key absent from the chunk
  metadata stays absent.
\<close>

theorem embedChunk_metadata_flat:
  "snd (embedChunk env userId file chunk index r) = Inr emb \<longrightarrow>
     (\<exists>md m. chunk_metadata chunk = Some md \<and> emetadata emb = Some m \<and>
        (\<forall>k v. map_of m k = Some v \<longrightarrow> flat_json v) \<and>
        (distinct (map fst md) \<longrightarrow>
           (\<forall>k. k \<notin> reserved_keys \<longrightarrow>
              map_of m k =
                (case map_of md k of
                   None \<Rightarrow> None
                 | Some v \<Rightarrow>
                     Some (if is_object v
                           then JArr (map (\<lambda>(k', v'). JStr (k' @ lit '':'' @ stringify env v'))
                                   (entries v))
                           else v)))))"
proof
  assume "snd (embedChunk env userId file chunk index r) = Inr emb"
  then obtain md where md: "chunk_metadata chunk = Some md"
    and m: "emetadata emb = Some
         (AList.update (lit ''citation'') (JStr (citation_of env file md))
           (AList.update (lit ''url'') (js_string_or_undefined (url file))
             (AList.update (lit ''userId'') (JStr userId)
               (AList.update (lit ''text'') (JStr (chunk_text chunk))
                 (transformObjectValues env md)))))"
    using embedChunk_success_metadata by blast
  let ?m = "AList.update (lit ''citation'') (JStr (citation_of env file md))
           (AList.update (lit ''url'') (js_string_or_undefined (url file))
             (AList.update (lit ''userId'') (JStr userId)
               (AList.update (lit ''text'') (JStr (chunk_text chunk))
                 (transformObjectValues env md))))"
  have flat: "flat_json v" if "map_of ?m k = Some v" for k v
    using that transform_values_flat [of env md k v]
    by (auto simp: update_conv' js_string_or_undefined_def split: if_splits option.splits)
  have pass: "map_of ?m k =
                (case map_of md k of
                   None \<Rightarrow> None
                 | Some v \<Rightarrow>
                     Some (if is_object v
                           then JArr (map (\<lambda>(k', v'). JStr (k' @ lit '':'' @ stringify env v'))
                                   (entries v))
                           else v))"
    if "distinct (map fst md)" "k \<notin> reserved_keys" for k
    using that
    by (auto simp: update_conv' transform_lookup reserved_keys_def flatten_value_def
        split: option.splits)
  from md m flat pass show "\<exists>md m. chunk_metadata chunk = Some md \<and> emetadata emb = Some m \<and>
        (\<forall>k v. map_of m k = Some v \<longrightarrow> flat_json v) \<and>
        (distinct (map fst md) \<longrightarrow>
           (\<forall>k. k \<notin> reserved_keys \<longrightarrow>
              map_of m k =
                (case map_of md k of
                   None \<Rightarrow> None
                 | Some v \<Rightarrow>
                     Some (if is_object v
                           then JArr (map (\<lambda>(k', v'). JStr (k' @ lit '':'' @ stringify env v'))
                                   (entries v))
                           else v))))"
    by blast
qed

theorem embedChunk_metadata_flat_witness:
  "map_of (the (emetadata (projr (snd (embedChunk demo_env (lit ''u1'') demo_file (demo_chunk 1) 0
      (demo_replies 0)))))) (lit ''page_number'') = Some (JNum 1) \<and>
   map_of (the (emetadata (projr (snd (embedChunk demo_env (lit ''u1'') demo_file (demo_chunk 1) 0
      (demo_replies 0)))))) (lit ''languages'') =
     Some (JArr [JStr (lit ''0:'' @ [34] @ lit ''eng'' @ [34])])"
  using embedChunk_metadata_flat [of demo_env "lit ''u1''" demo_file "demo_chunk 1" 0
      "demo_replies 0" "projr (snd (embedChunk demo_env (lit ''u1'') demo_file (demo_chunk 1) 0
      (demo_replies 0)))"]
  by (simp add: embedChunk_def create_embedding_def demo_replies_def demo_env_def
      embedChunk_build_def demo_chunk_def demo_file_def first_embedding_def demo_response_def
      Let_def transformObjectValues_def flatten_value_def lit_def show_nat.simps
      digit_unit_def reserved_keys_def)

section \<open>The Qdrant provider\<close>

text \<open>
  Claim C7. The Qdrant provider's \<open>query\<close> never returns a result, empty or not: every
  call is rejected with the error \<open>query function is not implemented\<close>, which the
  provider record passes on.
\<close>

theorem query_not_implemented:
  "snd (query userId embeddings topK) = Inl (Error_of (lit ''query function is not implemented'')) \<and>
   (\<forall>qr. snd (query userId embeddings topK) \<noteq> Inr qr) \<and>
   query_of qdrant_provider userId embeddings topK =
     Inl (Error_of (lit ''query function is not implemented''))"
  by (simp add: query_def qdrant_provider_def Let_def)

lemma deleteFromVectorDb_requires_identifier:
  "falsy (name file) \<and> falsy (url file) \<Longrightarrow>
     calls_of (deleteFromVectorDb client store userId file) = [] \<and>
     result_of (deleteFromVectorDb client store userId file) =
       Inl (Error_of (lit ''No filename or URL provided for deletion.'')) \<and>
     state_of (deleteFromVectorDb client store userId file) = store"
  by (simp add: deleteFromVectorDb_def calls_of_def result_of_def state_of_def Let_def)

lemma deleteFromVectorDb_filter:
  "\<not> (falsy (name file) \<and> falsy (url file)) \<Longrightarrow>
     calls_of (deleteFromVectorDb client store userId file) =
       [[\<lparr>cond_key = lit ''name'', cond_value = name file\<rparr>,
         \<lparr>cond_key = lit ''url'', cond_value = url file\<rparr>]]"
  by (simp add: deleteFromVectorDb_def calls_of_def delete_filter_def Let_def split: sum.splits)

text \<open>
  Claim C5, at a delete that carries a name and no URL, with one stored point of that
  name: the request still holds a condition on \<open>url\<close>, with no value, among its \<open>must\<close>
  conditions; the store rejects it, the call fails and the point stays.
\<close>

theorem deleteFromVectorDb_name_only:
  "calls_of (deleteFromVectorDb qdrant_delete [demo_point] (lit ''u1'') name_only_file) =
     [[\<lparr>cond_key = lit ''name'', cond_value = Some (lit ''a.pdf'')\<rparr>,
       \<lparr>cond_key = lit ''url'', cond_value = None\<rparr>]] \<and>
   result_of (deleteFromVectorDb qdrant_delete [demo_point] (lit ''u1'') name_only_file) =
     Inl (Error_of (lit ''Bad Request'')) \<and>
   state_of (deleteFromVectorDb qdrant_delete [demo_point] (lit ''u1'') name_only_file) =
     [demo_point]"
  by (simp add: deleteFromVectorDb_def calls_of_def result_of_def state_of_def Let_def
      name_only_file_def falsy_def delete_filter_def qdrant_delete_def lit_def)

section \<open>The limiter\<close>

lemma refreshed_permits:
  "next_refresh st \<le> t \<Longrightarrow> permits (refreshed opts st t) = reservoirRefreshAmount opts"
  by (simp add: refreshed_def)

lemma refreshed_next_ge: "next_refresh st \<le> next_refresh (refreshed opts st t)"
  by (simp add: refreshed_def)

lemma refreshed_next_gt:
  assumes "0 < reservoirRefreshInterval opts"
  shows "t < next_refresh (refreshed opts st t)"
proof (cases "t < next_refresh st")
  case True
  then show ?thesis by (simp add: refreshed_def)
next
  case False
  let ?I = "reservoirRefreshInterval opts"
  let ?d = "t - next_refresh st"
  have "?d < ?I * Suc (?d div ?I)"
    using assms dividend_less_times_div [of ?I ?d] by (simp add: algebra_simps)
  with False show ?thesis
    by (simp add: refreshed_def)
qed

lemma permit_time_ge: "0 < reservoirRefreshInterval opts \<Longrightarrow> t \<le> permit_time opts st t"
  using refreshed_next_gt [of opts t st] by (simp add: permit_time_def)

lemma permit_time_permits:
  assumes "0 < reservoirRefreshAmount opts"
  shows "0 < permits (refreshed opts st (permit_time opts st t))"
proof (cases "0 < permits (refreshed opts st t)")
  case True
  then show ?thesis by (simp add: permit_time_def)
next
  case False
  have "next_refresh st \<le> next_refresh (refreshed opts st t)"
    by (rule refreshed_next_ge)
  then have "permits (refreshed opts st (next_refresh (refreshed opts st t))) =
      reservoirRefreshAmount opts"
    by (rule refreshed_permits)
  with False assms show ?thesis
    by (simp add: permit_time_def)
qed

lemma sorted_above_nth:
  "sorted ys \<Longrightarrow> k < length ys \<Longrightarrow>
     length (filter (\<lambda>f. ys ! k < f) ys) \<le> length ys - Suc k"
proof -
  assume s: "sorted ys" and k: "k < length ys"
  have "filter (\<lambda>f. ys ! k < f) (take (Suc k) ys) = []"
  proof -
    have "\<forall>x\<in>set (take (Suc k) ys). \<not> ys ! k < x"
    proof
      fix x assume "x \<in> set (take (Suc k) ys)"
      then obtain i where "i < Suc k" "i < length ys" "x = ys ! i"
        by (auto simp: in_set_conv_nth)
      with s k have "x \<le> ys ! k"
        by (auto intro: sorted_nth_mono)
      then show "\<not> ys ! k < x" by simp
    qed
    then show ?thesis by (simp add: filter_empty_conv)
  qed
  moreover have "filter (\<lambda>f. ys ! k < f) ys =
      filter (\<lambda>f. ys ! k < f) (take (Suc k) ys) @ filter (\<lambda>f. ys ! k < f) (drop (Suc k) ys)"
    by (metis append_take_drop_id filter_append)
  ultimately have "filter (\<lambda>f. ys ! k < f) ys = filter (\<lambda>f. ys ! k < f) (drop (Suc k) ys)"
    by simp
  then have "length (filter (\<lambda>f. ys ! k < f) ys) \<le> length (drop (Suc k) ys)"
    by (metis length_filter_le)
  then show ?thesis by simp
qed

lemma above_sort_nth:
  "k < length xs \<Longrightarrow> length (filter (\<lambda>f. sort xs ! k < f) xs) \<le> length xs - Suc k"
proof -
  assume k: "k < length xs"
  have "length (filter (\<lambda>f. sort xs ! k < f) (sort xs)) =
        length (sort (filter (\<lambda>f. sort xs ! k < f) xs))"
    by (simp only: filter_sort)
  then have "length (filter (\<lambda>f. sort xs ! k < f) xs) =
             length (filter (\<lambda>f. sort xs ! k < f) (sort xs))"
    by simp
  with sorted_above_nth [of "sort xs" k] k show ?thesis by simp
qed

lemma running_at_antimono:
  "t \<le> t' \<Longrightarrow> length (running_at st t') \<le> length (running_at st t)"
proof -
  assume "t \<le> t'"
  then have "running_at st t' = filter (\<lambda>f. t' < f) (running_at st t)"
    by (auto simp: running_at_def intro: filter_cong)
  then show ?thesis
    by (metis length_filter_le)
qed

lemma slot_time_ge: "0 < maxConcurrent opts \<Longrightarrow> t \<le> slot_time opts st t"
proof (cases "length (running_at st t) < maxConcurrent opts")
  case True
  then show ?thesis by (simp add: slot_time_def)
next
  case False
  assume m: "0 < maxConcurrent opts"
  let ?run = "running_at st t"
  let ?k = "length ?run - maxConcurrent opts"
  from False m have k: "?k < length ?run" by simp
  then have "sort ?run ! ?k \<in> set (sort ?run)"
    by (metis length_sort nth_mem)
  then have "t < sort ?run ! ?k"
    by (simp add: running_at_def)
  with False show ?thesis
    by (simp add: slot_time_def Let_def)
qed

lemma slot_time_free:
  assumes m: "0 < maxConcurrent opts"
  shows "length (running_at st (slot_time opts st t)) < maxConcurrent opts"
proof (cases "length (running_at st t) < maxConcurrent opts")
  case True
  then show ?thesis by (simp add: slot_time_def)
next
  case False
  let ?run = "running_at st t"
  let ?k = "length ?run - maxConcurrent opts"
  let ?t1 = "sort ?run ! ?k"
  from False m have k: "?k < length ?run" by simp
  have t1: "slot_time opts st t = ?t1"
    using False by (simp add: slot_time_def Let_def)
  have ge: "t \<le> ?t1"
    using slot_time_ge [OF m, where t = t and st = st] by (simp add: t1)
  then have "running_at st ?t1 = filter (\<lambda>f. ?t1 < f) ?run"
    by (auto simp: running_at_def intro: filter_cong)
  moreover have "length (filter (\<lambda>f. ?t1 < f) ?run) \<le> length ?run - Suc ?k"
    using above_sort_nth [OF k] .
  ultimately have "length (running_at st ?t1) \<le> length ?run - Suc ?k"
    by simp
  with False m k show ?thesis
    by (simp add: t1)
qed

lemma spacing_time_ok:
  "last_launch st = Some l \<Longrightarrow> l + minTime opts \<le> spacing_time opts st t"
  by (simp add: spacing_time_def)

lemma admission_time_admitted:
  assumes a: "0 < reservoirRefreshAmount opts" and i: "0 < reservoirRefreshInterval opts"
    and m: "0 < maxConcurrent opts"
  shows "admitted opts st (admission_time opts st now)"
proof -
  let ?t0 = "spacing_time opts st now"
  let ?t1 = "slot_time opts st ?t0"
  let ?t2 = "permit_time opts st ?t1"
  have t01: "?t0 \<le> ?t1" by (rule slot_time_ge [OF m])
  have t12: "?t1 \<le> ?t2" by (rule permit_time_ge [OF i])
  have p: "0 < permits (refreshed opts st ?t2)"
    by (rule permit_time_permits [OF a])
  have "length (running_at st ?t2) \<le> length (running_at st ?t1)"
    by (rule running_at_antimono [OF t12])
  with slot_time_free [OF m, where st = st and t = ?t0]
  have c: "length (running_at st ?t2) < maxConcurrent opts"
    by simp
  have s: "case last_launch st of None \<Rightarrow> True | Some l \<Rightarrow> l + minTime opts \<le> ?t2"
  proof (cases "last_launch st")
    case None
    then show ?thesis by simp
  next
    case (Some l)
    with spacing_time_ok [where st = st and l = l and opts = opts and t = now] t01 t12
    show ?thesis by simp
  qed
  from p c s show ?thesis
    by (simp add: admitted_def admission_time_def)
qed

lemma run_limiter_admitted:
  assumes "0 < reservoirRefreshAmount opts" "0 < reservoirRefreshInterval opts"
    "0 < maxConcurrent opts"
  shows "(t, st') \<in> set (run_limiter opts st now ds) \<Longrightarrow> admitted opts st' t"
proof (induction ds arbitrary: st)
  case Nil
  then show ?case by simp
next
  case (Cons d ds)
  from Cons.prems consider "(t, st') = (admission_time opts st now, st)"
    | "(t, st') \<in> set (run_limiter opts (launched opts st (admission_time opts st now) d) now ds)"
    by (auto simp: Let_def)
  then show ?case
  proof cases
    case 1
    with admission_time_admitted [OF assms, where st = st and now = now] show ?thesis by simp
  next
    case 2
    then show ?thesis by (rule Cons.IH)
  qed
qed

lemma length_run_limiter [simp]: "length (run_limiter opts st now ds) = length ds"
  by (induction ds arbitrary: st) (simp_all add: Let_def)

lemma run_limiter_first:
  "ds \<noteq> [] \<Longrightarrow> snd (run_limiter opts st now ds ! 0) = st"
  by (cases ds) (simp_all add: Let_def)

lemma run_limiter_next:
  "Suc i < length ds \<Longrightarrow>
     snd (run_limiter opts st now ds ! Suc i) =
       launched opts (snd (run_limiter opts st now ds ! i)) (fst (run_limiter opts st now ds ! i))
         (ds ! i)"
proof (induction ds arbitrary: st i)
  case Nil
  then show ?case by simp
next
  case (Cons d ds)
  show ?case
  proof (cases i)
    case 0
    with Cons.prems have "ds \<noteq> []" by auto
    with 0 show ?thesis
      by (simp add: Let_def run_limiter_first)
  next
    case (Suc j)
    with Cons.prems have "Suc j < length ds" by simp
    from Cons.IH [OF this] Suc show ?thesis
      by (simp add: Let_def)
  qed
qed

lemma embedDocument_limiter_sane:
  "0 < reservoirRefreshAmount embedDocument_limiter"
  "0 < reservoirRefreshInterval embedDocument_limiter"
  "0 < maxConcurrent embedDocument_limiter"
  by (simp_all add: embedDocument_limiter_def)

lemma length_embedDocument_schedule:
  "length (embedDocument_schedule w chunks replies) = length chunks"
  by (simp add: embedDocument_schedule_def)

lemma embedDocument_calls:
  "calls_of (embedDocument env w userId file chunks replies) =
     map (\<lambda>(chunk, t, st). \<lparr>gate = Some (length (limiters w)), input_text = chunk_text chunk,
                             timeout_ms = Some 15000, dispatched_at = t\<rparr>)
       (zip chunks (embedDocument_schedule w chunks replies))"
  by (simp add: embedDocument_def calls_of_def Let_def case_prod_beta)

text \<open>
  The limiter at work, on a small instance: three jobs of 300 ms each are scheduled at
  time 0 on a limiter that runs one job at a time and has two permits a second. The second
  job waits for the first to finish, the third for the reservoir to be refilled.
\<close>

lemma small_limiter_waits:
  "map fst (run_limiter small_limiter (new_limiter small_limiter 0) 0 [300, 300, 300]) =
     [0, 300, 1000]"
  by code_simp

lemma first_admission:
  "admission_time embedDocument_limiter (new_limiter embedDocument_limiter now) now = now"
  by (simp add: admission_time_def spacing_time_def slot_time_def permit_time_def refreshed_def
      running_at_def new_limiter_def embedDocument_limiter_def)

lemma second_admission:
  "admission_time embedDocument_limiter
     (launched embedDocument_limiter (new_limiter embedDocument_limiter now) now d) now = now + 12"
  by (simp add: admission_time_def spacing_time_def slot_time_def permit_time_def refreshed_def
      running_at_def new_limiter_def embedDocument_limiter_def launched_def Let_def)

lemma two_chunk_calls:
  "map (\<lambda>c. (gate c, dispatched_at c))
     (calls_of (embedDocument env w userId file [c1, c2] replies)) =
   [(Some (length (limiters w)), clock_ms w), (Some (length (limiters w)), clock_ms w + 12)]"
  by (simp add: embedDocument_calls embedDocument_schedule_def Let_def first_admission
      second_admission upt_rec)

lemma embedDocument_state:
  "state_of (embedDocument env w userId file chunks replies) =
     w\<lparr>limiters := limiters w @ [embedDocument_limiter]\<rparr>"
  by (simp add: embedDocument_def state_of_def Let_def case_prod_beta)

text \<open>
  Claim C8 fails for \<open>embedMessage\<close>: its call goes to the provider at once, through no
  limiter, here in the same millisecond as the first call of a batch. It fails for two
  batches as well: each is scheduled through a limiter of its own, so the second batch
  dispatches at times 0 and 12 again.
\<close>

theorem embedMessage_bypasses_limiter:
  "map (\<lambda>c. (gate c, dispatched_at c))
     (calls_of (embedDocument demo_env demo_world (lit ''u1'') demo_file
        [demo_chunk 1, demo_chunk 2] demo_replies)) = [(Some 0, 0), (Some 0, 12)] \<and>
   map (\<lambda>c. (gate c, dispatched_at c))
     (calls_of (embedMessage demo_env
        (state_of (embedDocument demo_env demo_world (lit ''u1'') demo_file
           [demo_chunk 1, demo_chunk 2] demo_replies))
        (lit ''u1'') (lit ''hello'') (Reply 120 (Inr demo_response)))) = [(None, 0)] \<and>
   map (\<lambda>c. (gate c, dispatched_at c))
     (calls_of (embedDocument demo_env
        (state_of (embedDocument demo_env demo_world (lit ''u1'') demo_file
           [demo_chunk 1, demo_chunk 2] demo_replies))
        (lit ''u1'') demo_file [demo_chunk 1, demo_chunk 2] demo_replies)) =
     [(Some 1, 0), (Some 1, 12)]"
proof -
  have st: "state_of (embedDocument demo_env demo_world (lit ''u1'') demo_file
      [demo_chunk 1, demo_chunk 2] demo_replies) =
      demo_world\<lparr>limiters := [embedDocument_limiter]\<rparr>"
    by (simp add: embedDocument_state demo_world_def)
  have a: "map (\<lambda>c. (gate c, dispatched_at c))
     (calls_of (embedDocument demo_env demo_world (lit ''u1'') demo_file
        [demo_chunk 1, demo_chunk 2] demo_replies)) = [(Some 0, 0), (Some 0, 12)]"
    by (simp add: two_chunk_calls demo_world_def)
  have b: "map (\<lambda>c. (gate c, dispatched_at c))
     (calls_of (embedMessage demo_env (demo_world\<lparr>limiters := [embedDocument_limiter]\<rparr>)
        (lit ''u1'') (lit ''hello'') (Reply 120 (Inr demo_response)))) = [(None, 0)]"
    by (simp add: demo_world_def embedMessage_def calls_of_def Let_def create_embedding_def
        first_embedding_def demo_response_def uuidv4_def)
  have c: "map (\<lambda>c. (gate c, dispatched_at c))
     (calls_of (embedDocument demo_env (demo_world\<lparr>limiters := [embedDocument_limiter]\<rparr>)
        (lit ''u1'') demo_file [demo_chunk 1, demo_chunk 2] demo_replies)) =
     [(Some 1, 0), (Some 1, 12)]"
    by (simp add: two_chunk_calls demo_world_def)
  from a b c show ?thesis
    by (simp only: st)
qed

text \<open>
  Claim C8 as amended. Every call of one \<open>embedDocument\<close> invocation, one per chunk,
  passes through the limiter which that invocation constructs, with a reservoir of 5000
  refilled to 5000 every 60000 ms, a minimum spacing of 12 ms and at most 50 calls in
  flight. The limiter starts full when the batch starts and counts each dispatch of the
  batch (one permit less, the call in flight until it settles or times out), and a call
  is dispatched only when that limiter has a permit left, fewer than 50 calls of the
  batch are in flight and 12 ms have elapsed since the batch's last dispatch; so
  successive dispatches of a batch are at least 12 ms apart. The gate is not shared: the
  limiter is a new one for every invocation, and \<open>embedMessage\<close> calls the provider at
  once, through no limiter, and constructs none.
\<close>

theorem embedDocument_calls_gated:
  "length (calls_of (embedDocument env w userId file chunks replies)) = length chunks \<and>
   (\<forall>i<length chunks.
      gate (calls_of (embedDocument env w userId file chunks replies) ! i) =
        Some (length (limiters w)) \<and>
      dispatched_at (calls_of (embedDocument env w userId file chunks replies) ! i) =
        fst (embedDocument_schedule w chunks replies ! i) \<and>
      0 < permits (refreshed embedDocument_limiter
                     (snd (embedDocument_schedule w chunks replies ! i))
                     (fst (embedDocument_schedule w chunks replies ! i))) \<and>
      length (running_at (snd (embedDocument_schedule w chunks replies ! i))
                (fst (embedDocument_schedule w chunks replies ! i))) < 50 \<and>
      (\<forall>l. last_launch (snd (embedDocument_schedule w chunks replies ! i)) = Some l \<longrightarrow>
           l + 12 \<le> fst (embedDocument_schedule w chunks replies ! i))) \<and>
   (0 < length chunks \<longrightarrow>
      snd (embedDocument_schedule w chunks replies ! 0) =
        \<lparr>permits = 5000, next_refresh = clock_ms w + 60000, last_launch = None,
         in_flight = []\<rparr>) \<and>
   (\<forall>i. Suc i < length chunks \<longrightarrow>
      snd (embedDocument_schedule w chunks replies ! Suc i) =
        launched embedDocument_limiter (snd (embedDocument_schedule w chunks replies ! i))
          (fst (embedDocument_schedule w chunks replies ! i)) (call_duration (replies i)) \<and>
      fst (embedDocument_schedule w chunks replies ! i) + 12 \<le>
        fst (embedDocument_schedule w chunks replies ! Suc i)) \<and>
   limiters (state_of (embedDocument env w userId file chunks replies)) =
     limiters w @
       [\<lparr>reservoir = 5000, reservoirRefreshAmount = 5000, reservoirRefreshInterval = 60000,
         minTime = 12, maxConcurrent = 50\<rparr>] \<and>
   (\<forall>c\<in>set (calls_of (embedMessage env w userId content r)).
      gate c = None \<and> dispatched_at c = clock_ms w) \<and>
   limiters (state_of (embedMessage env w userId content r)) = limiters w"
proof -
  let ?sched = "embedDocument_schedule w chunks replies"
  let ?calls = "calls_of (embedDocument env w userId file chunks replies)"
  let ?opts = embedDocument_limiter
  let ?ds = "map (\<lambda>i. call_duration (replies i)) [0..<length chunks]"
  have len: "length ?sched = length chunks"
    by (rule length_embedDocument_schedule)
  have a: "length ?calls = length chunks"
    by (simp add: embedDocument_calls len)
  have adm: "admitted ?opts (snd (?sched ! i)) (fst (?sched ! i))" if "i < length chunks" for i
  proof -
    from that len have "?sched ! i \<in> set ?sched" by simp
    then have "(fst (?sched ! i), snd (?sched ! i)) \<in>
        set (run_limiter ?opts (new_limiter ?opts (clock_ms w)) (clock_ms w) ?ds)"
      by (simp add: embedDocument_schedule_def)
    then show ?thesis
      by (rule run_limiter_admitted [OF embedDocument_limiter_sane])
  qed
  have b: "gate (?calls ! i) = Some (length (limiters w)) \<and>
      dispatched_at (?calls ! i) = fst (?sched ! i) \<and>
      0 < permits (refreshed ?opts (snd (?sched ! i)) (fst (?sched ! i))) \<and>
      length (running_at (snd (?sched ! i)) (fst (?sched ! i))) < 50 \<and>
      (\<forall>l. last_launch (snd (?sched ! i)) = Some l \<longrightarrow> l + 12 \<le> fst (?sched ! i))"
    if i: "i < length chunks" for i
  proof -
    have "gate (?calls ! i) = Some (length (limiters w)) \<and>
        dispatched_at (?calls ! i) = fst (?sched ! i)"
      using i len by (simp add: embedDocument_calls case_prod_beta)
    moreover have "0 < permits (refreshed ?opts (snd (?sched ! i)) (fst (?sched ! i))) \<and>
      length (running_at (snd (?sched ! i)) (fst (?sched ! i))) < 50 \<and>
      (\<forall>l. last_launch (snd (?sched ! i)) = Some l \<longrightarrow> l + 12 \<le> fst (?sched ! i))"
      using adm [OF i]
      by (auto simp: admitted_def embedDocument_limiter_def split: option.splits)
    ultimately show ?thesis by blast
  qed
  have c: "snd (?sched ! 0) =
        \<lparr>permits = 5000, next_refresh = clock_ms w + 60000, last_launch = None,
         in_flight = []\<rparr>" if "0 < length chunks"
  proof -
    from that have "?ds \<noteq> []" by simp
    then have "snd (?sched ! 0) = new_limiter ?opts (clock_ms w)"
      unfolding embedDocument_schedule_def by (rule run_limiter_first)
    then show ?thesis
      by (simp add: new_limiter_def embedDocument_limiter_def)
  qed
  have d: "snd (?sched ! Suc i) =
        launched ?opts (snd (?sched ! i)) (fst (?sched ! i)) (call_duration (replies i)) \<and>
      fst (?sched ! i) + 12 \<le> fst (?sched ! Suc i)" if i: "Suc i < length chunks" for i
  proof -
    from i have "Suc i < length ?ds" by simp
    from run_limiter_next [OF this, of ?opts "new_limiter ?opts (clock_ms w)" "clock_ms w"] i
    have n: "snd (?sched ! Suc i) =
        launched ?opts (snd (?sched ! i)) (fst (?sched ! i)) (call_duration (replies i))"
      by (simp add: embedDocument_schedule_def)
    then have "last_launch (snd (?sched ! Suc i)) = Some (fst (?sched ! i))"
      by (simp add: launched_def Let_def)
    with b [OF i] have "fst (?sched ! i) + 12 \<le> fst (?sched ! Suc i)"
      by blast
    with n show ?thesis by blast
  qed
  have e: "limiters (state_of (embedDocument env w userId file chunks replies)) =
     limiters w @
       [\<lparr>reservoir = 5000, reservoirRefreshAmount = 5000, reservoirRefreshInterval = 60000,
         minTime = 12, maxConcurrent = 50\<rparr>]"
    by (simp add: embedDocument_def state_of_def Let_def case_prod_beta
        embedDocument_limiter_def)
  have f: "\<forall>c\<in>set (calls_of (embedMessage env w userId content r)).
      gate c = None \<and> dispatched_at c = clock_ms w"
    by (auto simp add: embedMessage_def calls_of_def Let_def uuidv4_def split: sum.splits)
  have g: "limiters (state_of (embedMessage env w userId content r)) = limiters w"
    by (auto simp add: embedMessage_def state_of_def Let_def uuidv4_def split: sum.splits)
  from a b c d e f g show ?thesis by blast
qed

theorem embedDocument_calls_gated_witness:
  "map (\<lambda>c. (gate c, dispatched_at c))
     (calls_of (embedDocument demo_env demo_world (lit ''u1'') demo_file
        [demo_chunk 1, demo_chunk 2] demo_replies)) = [(Some 0, 0), (Some 0, 12)] \<and>
   map minTime (limiters (state_of (embedDocument demo_env demo_world (lit ''u1'') demo_file
      [demo_chunk 1, demo_chunk 2] demo_replies))) = [12] \<and>
   fst (embedDocument_schedule demo_world [demo_chunk 1, demo_chunk 2] demo_replies ! 0) + 12 \<le>
   fst (embedDocument_schedule demo_world [demo_chunk 1, demo_chunk 2] demo_replies ! 1)"
  using embedDocument_calls_gated [of demo_env demo_world "lit ''u1''" demo_file
      "[demo_chunk 1, demo_chunk 2]" demo_replies "lit ''hello''" slow_reply]
    two_chunk_calls [of demo_env demo_world "lit ''u1''" demo_file "demo_chunk 1" "demo_chunk 2"
      demo_replies]
  by (simp add: demo_world_def)

section \<open>Timeouts\<close>








section \<open>The result of embedMessage\<close>

text \<open>
  Claim C10. A successful \<open>embedMessage\<close> returns an id and the first vector of the
  response and no metadata; the id is the next identifier of the generator, so that, the
  generator never repeating itself, a second call for the same user and message returns
  another id; and the text sent to the provider is \<open>Date: \<close>, the current date and time,
  \<open>. User: \<close>, the user id, \<open>. Message: \<close>, the message, \<open>. Metadata: \<close>.
\<close>

theorem embedMessage_result:
  "(result_of (embedMessage env w userId content r) = Inr emb \<longrightarrow>
      emetadata emb = None \<and> eid emb = uuid_source w (uuid_count w) \<and>
      (\<exists>resp vs. outcome r = Inr resp \<and> data resp = evalues emb # vs)) \<and>
   (inj (uuid_source w) \<and>
    result_of (embedMessage env w userId content r) = Inr emb \<and>
    result_of (embedMessage env' (state_of (embedMessage env w userId content r)\<lparr>clock_text := t\<rparr>)
                 userId content r') = Inr emb' \<longrightarrow>
      eid emb' \<noteq> eid emb) \<and>
   map input_text (calls_of (embedMessage env w userId content r)) =
     [lit ''Date: '' @ clock_text w @ lit ''. User: '' @ userId @ lit ''. Message: '' @ content
        @ lit ''. Metadata: '']"
proof -
  have a: "emetadata emb = None \<and> eid emb = uuid_source w (uuid_count w) \<and>
      (\<exists>resp vs. outcome r = Inr resp \<and> data resp = evalues emb # vs) \<and>
      state_of (embedMessage env w userId content r) = w\<lparr>uuid_count := Suc (uuid_count w)\<rparr>"
    if "result_of (embedMessage env w userId content r) = Inr emb" for env w r emb
    using that
    by (auto simp add: embedMessage_def result_of_def state_of_def Let_def uuidv4_def
        create_embedding_def first_embedding_def split: sum.splits list.splits)
  have b: "eid emb' \<noteq> eid emb"
    if i: "inj (uuid_source w)"
      and r1: "result_of (embedMessage env w userId content r) = Inr emb"
      and r2: "result_of (embedMessage env'
                 (state_of (embedMessage env w userId content r)\<lparr>clock_text := t\<rparr>)
                 userId content r') = Inr emb'"
  proof -
    from a [OF r1] have s: "state_of (embedMessage env w userId content r) =
        w\<lparr>uuid_count := Suc (uuid_count w)\<rparr>" and e1: "eid emb = uuid_source w (uuid_count w)"
      by simp_all
    from a [OF r2] have "eid emb' = uuid_source w (Suc (uuid_count w))"
      by (simp add: s)
    with e1 i show ?thesis
      by (simp add: inj_eq)
  qed
  have c: "map input_text (calls_of (embedMessage env w userId content r)) =
     [lit ''Date: '' @ clock_text w @ lit ''. User: '' @ userId @ lit ''. Message: '' @ content
        @ lit ''. Metadata: '']"
    by (simp add: embedMessage_def calls_of_def Let_def uuidv4_def messageToEmbed_def
        split: sum.splits)
  from a b c show ?thesis by blast
qed

lemma demo_uuid_source_inj: "inj (uuid_source demo_world)"
  by (auto simp add: demo_world_def inj_def dest: arg_cong [where f = length])

theorem embedMessage_result_witness:
  "eid (projr (result_of (embedMessage demo_env
      (state_of (embedMessage demo_env demo_world (lit ''u1'') (lit ''hello'') slow_reply)
         \<lparr>clock_text := lit ''11/2/2026, 9:00:21 AM''\<rparr>)
      (lit ''u1'') (lit ''hello'') slow_reply))) \<noteq>
   eid (projr (result_of (embedMessage demo_env demo_world (lit ''u1'') (lit ''hello'')
      slow_reply))) \<and>
   emetadata (projr (result_of (embedMessage demo_env demo_world (lit ''u1'') (lit ''hello'')
      slow_reply))) = None \<and>
   map input_text (calls_of (embedMessage demo_env demo_world (lit ''u1'') (lit ''hello'')
      slow_reply)) =
     [lit ''Date: 11/2/2026, 9:00:00 AM. User: u1. Message: hello. Metadata: '']"
proof -
  have r1: "result_of (embedMessage demo_env demo_world (lit ''u1'') (lit ''hello'') slow_reply) =
      Inr \<lparr>eid = [0x61], evalues = [1 / 4, 3 / 4], emetadata = None\<rparr>"
    by (simp add: embedMessage_def calls_of_def result_of_def Let_def slow_reply_def
      create_embedding_def first_embedding_def demo_response_def uuidv4_def demo_world_def)
  have r2: "result_of (embedMessage demo_env
      (state_of (embedMessage demo_env demo_world (lit ''u1'') (lit ''hello'') slow_reply)
         \<lparr>clock_text := lit ''11/2/2026, 9:00:21 AM''\<rparr>)
      (lit ''u1'') (lit ''hello'') slow_reply) =
      Inr \<lparr>eid = [0x61, 0x61], evalues = [1 / 4, 3 / 4], emetadata = None\<rparr>"
    by (simp add: embedMessage_def calls_of_def result_of_def state_of_def Let_def slow_reply_def
      create_embedding_def first_embedding_def demo_response_def uuidv4_def demo_world_def)
  have c: "clock_text demo_world = lit ''11/2/2026, 9:00:00 AM''"
    by (simp add: demo_world_def)
  show ?thesis
    using embedMessage_result [of demo_env demo_world "lit ''u1''" "lit ''hello''" slow_reply
        "\<lparr>eid = [0x61], evalues = [1 / 4, 3 / 4], emetadata = None\<rparr>" demo_env
        "lit ''11/2/2026, 9:00:21 AM''" slow_reply
        "\<lparr>eid = [0x61, 0x61], evalues = [1 / 4, 3 / 4], emetadata = None\<rparr>"]
      demo_uuid_source_inj r1 r2 c
    by (simp add: lit_def)
qed

end
